theory Spec2Isabelle
  imports Complex_Main
begin

section \<open>Documents, queries and Python's tuple unpacking\<close>

text \<open>
  The values that \<^verbatim>\<open>json.loads\<close> and \<^verbatim>\<open>msgpack.Unpacker\<close> hand to the
  code. A Python \<^verbatim>\<open>dict\<close> is an association list in insertion order (keys distinct);
  \<^verbatim>\<open>{}\<close> is \<open>[]\<close>. The loader never looks inside a document: it unpacks a decoded
  value into two parts and compares the first with the string \<^verbatim>\<open>'stop'\<close>.
  The binary and array values that only the binary encoding has are left out: they occur
  inside documents, which the code passes on unread.
\<close>

datatype json =
    JNull
  | JBool bool
  | JInt int
  | JFloat real
  | JStr string
  | JArr "json list"
  | JObj "(string \<times> json) list"

type_synonym dict = "(string \<times> json) list"

text \<open>The exceptions the two modules can let through to their caller.\<close>

datatype error =
    JSONDecodeError
  | ValueError
  | TypeError
  | FileNotFoundError
  | UnpackException

text \<open>
  \<^verbatim>\<open>name, doc = value\<close>: Python iterates the value and wants exactly two items. A list
  gives its elements, a string its characters, a dict its keys; a wrong number of items
  raises \<^verbatim>\<open>ValueError\<close>, a value that cannot be iterated raises \<^verbatim>\<open>TypeError\<close>.
\<close>

fun unpack_pair :: "json \<Rightarrow> error + (json \<times> json)" where
  "unpack_pair (JArr xs) =
     (case xs of [a, b] \<Rightarrow> Inr (a, b) | _ \<Rightarrow> Inl ValueError)"
| "unpack_pair (JStr s) =
     (case s of [a, b] \<Rightarrow> Inr (JStr [a], JStr [b]) | _ \<Rightarrow> Inl ValueError)"
| "unpack_pair (JObj kvs) =
     (case kvs of [(k1, _), (k2, _)] \<Rightarrow> Inr (JStr k1, JStr k2) | _ \<Rightarrow> Inl ValueError)"
| "unpack_pair _ = Inl TypeError"

section \<open>The catalog object\<close>

text \<open>
  One \<^verbatim>\<open>upsert(start_doc, stop_doc, gen, (filename,), {})\<close> call: the start document,
  the stop document or \<^verbatim>\<open>None\<close>, and the file name from which \<^verbatim>\<open>gen\<close> rebuilds
  the record stream.
\<close>

record upsert_call =
  start_doc :: json
  stop_doc :: "json option"
  gen_filename :: string

text \<open>
  The fields of \<^verbatim>\<open>BlueskyJSONLCatalog\<close> and \<^verbatim>\<open>BlueskyMsgpackCatalog\<close> that the two
  modules read and write: \<^verbatim>\<open>self.paths\<close>, \<^verbatim>\<open>self._query\<close> and
  \<^verbatim>\<open>self._filename_to_mtime\<close>. Modification times are floats that are only ever
  compared for equality, and \<^verbatim>\<open>dict.get\<close> returns \<^verbatim>\<open>None\<close> for a file it has not
  seen.

  Two fields are traces of what the object did, for claims that count calls:
  \<open>upserts\<close> lists the calls of \<^verbatim>\<open>self.upsert\<close> in order, and \<open>opened\<close> lists the
  files that \<^verbatim>\<open>_load\<close> opened for parsing.
\<close>

record catalog =
  paths :: "string list"
  query :: "dict option"
  filename_to_mtime :: "string \<rightharpoonup> real"
  upserts :: "upsert_call list"
  opened :: "string list"

text \<open>
  The constructor's first argument: one path (a \<^verbatim>\<open>str\<close> or a \<^verbatim>\<open>pathlib.Path\<close>) or a
  list of paths.
\<close>

datatype paths_arg = SinglePath string | PathList "string list"

text \<open>
  Modelled from the spec: the base class \<^verbatim>\<open>BlueskyInMemoryCatalog\<close> (module
  \<^verbatim>\<open>in_memory\<close>) is not among the sources. Its constructor receives \<^verbatim>\<open>query\<close> and the
  subclasses read it back as \<^verbatim>\<open>self._query\<close>; the spec says the facade takes "an
  optional filter query, and passes everything else through to the indexing component
  unchanged", so the base constructor is taken to keep the query it is given, and to
  start with no entries.
\<close>

definition BlueskyInMemoryCatalog_init :: "dict option \<Rightarrow> catalog \<Rightarrow> catalog" where
  "BlueskyInMemoryCatalog_init q self = self\<lparr>query := q, upserts := []\<rparr>"

text \<open>
  Modelled from the spec: \<^verbatim>\<open>upsert\<close> belongs to the same absent base class, "treated
  as a black box"; the model records the call.
\<close>

definition upsert :: "catalog \<Rightarrow> json \<Rightarrow> json option \<Rightarrow> string \<Rightarrow> catalog" where
  "upsert self start stop filename =
     self\<lparr>upserts := upserts self
       @ [\<lparr>start_doc = start, stop_doc = stop, gen_filename = filename\<rparr>]\<rparr>"

text \<open>
  \<^verbatim>\<open>__init__\<close>, the same text in both classes: a single path becomes a one-element
  list, the ledger starts as an empty dict, the rest goes to the base class.
\<close>

definition BlueskyJSONLCatalog_init :: "paths_arg \<Rightarrow> dict option \<Rightarrow> catalog" where
  "BlueskyJSONLCatalog_init ps q =
     BlueskyInMemoryCatalog_init q
       \<lparr>paths = (case ps of SinglePath p \<Rightarrow> [p] | PathList l \<Rightarrow> l),
        query = None,
        filename_to_mtime = Map.empty,
        upserts = [],
        opened = []\<rparr>"

definition BlueskyMsgpackCatalog_init :: "paths_arg \<Rightarrow> dict option \<Rightarrow> catalog" where
  "BlueskyMsgpackCatalog_init ps q =
     BlueskyInMemoryCatalog_init q
       \<lparr>paths = (case ps of SinglePath p \<Rightarrow> [p] | PathList l \<Rightarrow> l),
        query = None,
        filename_to_mtime = Map.empty,
        upserts = [],
        opened = []\<rparr>"

text \<open>
  \<^verbatim>\<open>if self._query:\<close> is Python's truth test: \<^verbatim>\<open>None\<close> and the empty dict are
  false, every other dict is true.
\<close>

fun truthy :: "dict option \<Rightarrow> bool" where
  "truthy None = False"
| "truthy (Some d) = (d \<noteq> [])"

text \<open>
  The query that \<^verbatim>\<open>search\<close> passes to the constructor:
  \<^verbatim>\<open>{'$and': [self._query, query]}\<close> when the current query is true, the new query
  as it is otherwise.
\<close>

definition search_query :: "dict option \<Rightarrow> dict \<Rightarrow> dict" where
  "search_query current q =
     (if truthy current
      then (case current of Some d \<Rightarrow> [(''$and'', JArr [JObj d, JObj q])] | None \<Rightarrow> q)
      else q)"

text \<open>
  \<^verbatim>\<open>search\<close>: a new object of the same class from \<^verbatim>\<open>self.paths\<close> and the combined
  query. The other keyword arguments go to the base class and are not modelled.
\<close>

definition BlueskyJSONLCatalog_search :: "catalog \<Rightarrow> dict \<Rightarrow> catalog" where
  "BlueskyJSONLCatalog_search self q =
     BlueskyJSONLCatalog_init (PathList (paths self)) (Some (search_query (query self) q))"

definition BlueskyMsgpackCatalog_search :: "catalog \<Rightarrow> dict \<Rightarrow> catalog" where
  "BlueskyMsgpackCatalog_search self q =
     BlueskyMsgpackCatalog_init (PathList (paths self)) (Some (search_query (query self) q))"

section \<open>Files\<close>

text \<open>
  What one refresh cycle sees of the file system: \<^verbatim>\<open>glob.glob\<close> as a function from a
  pattern to the file names it matches, and for every existing file its modification time
  (\<^verbatim>\<open>os.path.getmtime\<close>) and its content. A name that \<open>lookup\<close> does not know is a
  file that is not there: \<^verbatim>\<open>getmtime\<close> and \<^verbatim>\<open>open\<close> raise
  \<^verbatim>\<open>FileNotFoundError\<close>. The cycle is synchronous, so it runs against one snapshot.
\<close>

record 'c stored_file =
  mtime :: real
  content :: 'c

record 'c filesystem =
  glob :: "string \<Rightarrow> string list"
  lookup :: "string \<rightharpoonup> 'c stored_file"

subsection \<open>Text files\<close>

text \<open>
  A text file's content is its characters. \<^verbatim>\<open>file.readline()\<close> returns the next line
  with its newline, or what is left when no newline follows, and the empty string at the
  end of the file; the second component is the rest of the file.
\<close>

definition newline :: char where
  "newline = CHR 0x0A"

fun readline :: "string \<Rightarrow> string \<times> string" where
  "readline [] = ([], [])"
| "readline (c # cs) =
     (if c = newline then ([c], cs)
      else (case readline cs of (l, r) \<Rightarrow> (c # l, r)))"

text \<open>
  Modelled from the spec: \<^verbatim>\<open>tail\<close> (module \<^verbatim>\<open>core\<close>) is not among the sources. The
  spec: it "returns a one-element result: the decoded text of the last line that contains
  non-whitespace content, or None if the file is empty or contains only blank lines", and
  on \<^verbatim>\<open>"line1\nline2\n\n"\<close> it returns \<^verbatim>\<open>"line2"\<close>.
\<close>

fun split_lines :: "string \<Rightarrow> string list" where
  "split_lines [] = [[]]"
| "split_lines (c # cs) =
     (if c = newline then [] # split_lines cs
      else (case split_lines cs of l # ls \<Rightarrow> (c # l) # ls | [] \<Rightarrow> [[c]]))"

definition whitespace :: "char \<Rightarrow> bool" where
  "whitespace c = (c \<in> set [CHR 0x20, CHR 0x09, CHR 0x0A, CHR 0x0B, CHR 0x0C, CHR 0x0D])"

definition tail :: "string \<Rightarrow> string option" where
  "tail text =
     (case filter (\<lambda>l. \<not> list_all whitespace l) (split_lines text) of
        [] \<Rightarrow> None
      | ls \<Rightarrow> Some (last ls))"

text \<open>
  \<^verbatim>\<open>json.loads\<close> is a parameter of the model, \<open>loads\<close>: \<open>None\<close> stands for
  \<^verbatim>\<open>json.JSONDecodeError\<close>. Every theorem below holds for every decoder.
\<close>

type_synonym decoder = "string \<Rightarrow> json option"

text \<open>
  \<^verbatim>\<open>get_stop\<close> of module \<^verbatim>\<open>jsonl\<close>. Only \<^verbatim>\<open>json.JSONDecodeError\<close> is caught: a
  last line that decodes but does not unpack into two items raises.
\<close>

definition jsonl_get_stop :: "decoder \<Rightarrow> string filesystem \<Rightarrow> string \<Rightarrow> error + json option" where
  "jsonl_get_stop loads fs filename =
     (case lookup fs filename of
        None \<Rightarrow> Inl FileNotFoundError
      | Some f \<Rightarrow>
          (case tail (content f) of
             None \<Rightarrow> Inr None
           | Some lastline \<Rightarrow>
               if lastline = [] then Inr None
               else
                 (case loads lastline of
                    None \<Rightarrow> Inr None
                  | Some v \<Rightarrow>
                      (case unpack_pair v of
                         Inl e \<Rightarrow> Inl e
                       | Inr (name, doc) \<Rightarrow>
                           Inr (if name = JStr ''stop'' then Some doc else None)))))"

text \<open>
  The body of the loops of \<^verbatim>\<open>BlueskyJSONLCatalog._load\<close> for one file name. The
  result is the object as the body leaves it and the exception it raised, if any:
  \<^verbatim>\<open>continue\<close> and the normal end both give \<open>None\<close>.
\<close>

definition jsonl_load_file ::
  "decoder \<Rightarrow> string filesystem \<Rightarrow> string \<Rightarrow> catalog \<Rightarrow> catalog \<times> error option" where
  "jsonl_load_file loads fs filename self =
     (case lookup fs filename of
        None \<Rightarrow> (self, Some FileNotFoundError)
      | Some f \<Rightarrow>
          if Some (mtime f) = filename_to_mtime self filename then (self, None)
          else
            (let self1 = self\<lparr>filename_to_mtime := (filename_to_mtime self)(filename \<mapsto> mtime f),
                               opened := opened self @ [filename]\<rparr>;
                 (line1, rest) = readline (content f)
             in case loads line1 of
                  None \<Rightarrow>
                    if fst (readline rest) = [] then (self1, None)
                    else (self1, Some JSONDecodeError)
                | Some v \<Rightarrow>
                    (case unpack_pair v of
                       Inl e \<Rightarrow> (self1, Some e)
                     | Inr (name, start) \<Rightarrow>
                         (case jsonl_get_stop loads fs filename of
                            Inl e \<Rightarrow> (self1, Some e)
                          | Inr stop \<Rightarrow> (upsert self1 start stop filename, None)))))"

text \<open>The inner loop, over the files one pattern matches; an exception ends it.\<close>

fun jsonl_load_files ::
  "decoder \<Rightarrow> string filesystem \<Rightarrow> string list \<Rightarrow> catalog \<Rightarrow> catalog \<times> error option" where
  "jsonl_load_files loads fs [] self = (self, None)"
| "jsonl_load_files loads fs (filename # rest) self =
     (case jsonl_load_file loads fs filename self of
        (self', Some e) \<Rightarrow> (self', Some e)
      | (self', None) \<Rightarrow> jsonl_load_files loads fs rest self')"

text \<open>The outer loop, over the patterns.\<close>

fun jsonl_load_paths ::
  "decoder \<Rightarrow> string filesystem \<Rightarrow> string list \<Rightarrow> catalog \<Rightarrow> catalog \<times> error option" where
  "jsonl_load_paths loads fs [] self = (self, None)"
| "jsonl_load_paths loads fs (path # rest) self =
     (case jsonl_load_files loads fs (glob fs path) self of
        (self', Some e) \<Rightarrow> (self', Some e)
      | (self', None) \<Rightarrow> jsonl_load_paths loads fs rest self')"

definition BlueskyJSONLCatalog_load ::
  "decoder \<Rightarrow> string filesystem \<Rightarrow> catalog \<Rightarrow> catalog \<times> error option" where
  "BlueskyJSONLCatalog_load loads fs self = jsonl_load_paths loads fs (paths self) self"

subsection \<open>Binary files\<close>

text \<open>
  A binary file's content is what iterating \<^verbatim>\<open>msgpack.Unpacker\<close> over it gives: the
  decoded values in order, and \<open>Corrupt\<close> where the decoder raises instead of giving
  a value. Incomplete data at the end of the file ends the iteration and is no frame.
\<close>

datatype frame = Frame json | Corrupt

text \<open>
  The frame that a record decodes to: the two-element array \<^verbatim>\<open>[name, doc]\<close>.
\<close>

definition record_frame :: "json \<times> json \<Rightarrow> frame" where
  "record_frame r = Frame (JArr [fst r, snd r])"

text \<open>
  \<^verbatim>\<open>get_stop\<close> of module \<^verbatim>\<open>msgpack\<close>: the loop returns at the first record whose
  name is \<^verbatim>\<open>'stop'\<close>; falling off the end returns \<^verbatim>\<open>None\<close>.
\<close>

fun msgpack_get_stop_loop :: "frame list \<Rightarrow> error + json option" where
  "msgpack_get_stop_loop [] = Inr None"
| "msgpack_get_stop_loop (Corrupt # rest) = Inl UnpackException"
| "msgpack_get_stop_loop (Frame v # rest) =
     (case unpack_pair v of
        Inl e \<Rightarrow> Inl e
      | Inr (name, doc) \<Rightarrow>
          if name = JStr ''stop'' then Inr (Some doc) else msgpack_get_stop_loop rest)"

definition msgpack_get_stop :: "frame list filesystem \<Rightarrow> string \<Rightarrow> error + json option" where
  "msgpack_get_stop fs filename =
     (case lookup fs filename of
        None \<Rightarrow> Inl FileNotFoundError
      | Some f \<Rightarrow> msgpack_get_stop_loop (content f))"

text \<open>
  The body of the loops of \<^verbatim>\<open>BlueskyMsgpackCatalog._load\<close> for one file name.
  \<^verbatim>\<open>next(unpacker)\<close> raises \<^verbatim>\<open>StopIteration\<close> on a file with no record.
\<close>

definition msgpack_load_file ::
  "frame list filesystem \<Rightarrow> string \<Rightarrow> catalog \<Rightarrow> catalog \<times> error option" where
  "msgpack_load_file fs filename self =
     (case lookup fs filename of
        None \<Rightarrow> (self, Some FileNotFoundError)
      | Some f \<Rightarrow>
          if Some (mtime f) = filename_to_mtime self filename then (self, None)
          else
            (let self1 = self\<lparr>filename_to_mtime := (filename_to_mtime self)(filename \<mapsto> mtime f),
                               opened := opened self @ [filename]\<rparr>
             in case content f of
                  [] \<Rightarrow> (self1, None)
                | Corrupt # _ \<Rightarrow> (self1, Some UnpackException)
                | Frame v # _ \<Rightarrow>
                    (case unpack_pair v of
                       Inl e \<Rightarrow> (self1, Some e)
                     | Inr (name, start) \<Rightarrow>
                         (case msgpack_get_stop fs filename of
                            Inl e \<Rightarrow> (self1, Some e)
                          | Inr stop \<Rightarrow> (upsert self1 start stop filename, None)))))"

fun msgpack_load_files ::
  "frame list filesystem \<Rightarrow> string list \<Rightarrow> catalog \<Rightarrow> catalog \<times> error option" where
  "msgpack_load_files fs [] self = (self, None)"
| "msgpack_load_files fs (filename # rest) self =
     (case msgpack_load_file fs filename self of
        (self', Some e) \<Rightarrow> (self', Some e)
      | (self', None) \<Rightarrow> msgpack_load_files fs rest self')"

fun msgpack_load_paths ::
  "frame list filesystem \<Rightarrow> string list \<Rightarrow> catalog \<Rightarrow> catalog \<times> error option" where
  "msgpack_load_paths fs [] self = (self, None)"
| "msgpack_load_paths fs (path # rest) self =
     (case msgpack_load_files fs (glob fs path) self of
        (self', Some e) \<Rightarrow> (self', Some e)
      | (self', None) \<Rightarrow> msgpack_load_paths fs rest self')"

definition BlueskyMsgpackCatalog_load ::
  "frame list filesystem \<Rightarrow> catalog \<Rightarrow> catalog \<times> error option" where
  "BlueskyMsgpackCatalog_load fs self = msgpack_load_paths fs (paths self) self"

section \<open>Objects in a store\<close>

text \<open>
  Catalog objects live in a store and are known by their position in it. Creating an
  object appends it, so its reference is one no earlier object has. \<^verbatim>\<open>search\<close> reads
  the object at \<open>r\<close> and creates the derived one; \<^verbatim>\<open>_load\<close> writes back the object
  it ran on. A reference outside the store is no object: the result is \<open>None\<close>.
\<close>

type_synonym store = "catalog list"

definition new_object :: "store \<Rightarrow> catalog \<Rightarrow> store \<times> nat" where
  "new_object h c = (h @ [c], length h)"

definition jsonl_search_at :: "store \<Rightarrow> nat \<Rightarrow> dict \<Rightarrow> (store \<times> nat) option" where
  "jsonl_search_at h r q =
     (if r < length h then Some (new_object h (BlueskyJSONLCatalog_search (h ! r) q)) else None)"

definition msgpack_search_at :: "store \<Rightarrow> nat \<Rightarrow> dict \<Rightarrow> (store \<times> nat) option" where
  "msgpack_search_at h r q =
     (if r < length h then Some (new_object h (BlueskyMsgpackCatalog_search (h ! r) q)) else None)"

definition jsonl_load_at ::
  "decoder \<Rightarrow> string filesystem \<Rightarrow> store \<Rightarrow> nat \<Rightarrow> (store \<times> error option) option" where
  "jsonl_load_at loads fs h r =
     (if r < length h
      then (case BlueskyJSONLCatalog_load loads fs (h ! r) of (c, e) \<Rightarrow> Some (h[r := c], e))
      else None)"

definition msgpack_load_at ::
  "frame list filesystem \<Rightarrow> store \<Rightarrow> nat \<Rightarrow> (store \<times> error option) option" where
  "msgpack_load_at fs h r =
     (if r < length h
      then (case BlueskyMsgpackCatalog_load fs (h ! r) of (c, e) \<Rightarrow> Some (h[r := c], e))
      else None)"

section \<open>The spec's classes of files\<close>

text \<open>
  The conditions under which \<^verbatim>\<open>_load\<close> takes its \<^verbatim>\<open>continue\<close> and
  \<^verbatim>\<open>raise e\<close> branches, under the names the spec gives them. Text: the first line
  does not decode and a second \<^verbatim>\<open>readline()\<close> returns the empty string
  (transient-not-ready), or returns something (malformed-start). Binary: the unpacker has
  no first value (transient-not-ready).
\<close>

definition jsonl_not_ready :: "decoder \<Rightarrow> string \<Rightarrow> bool" where
  "jsonl_not_ready loads text =
     (loads (fst (readline text)) = None \<and> fst (readline (snd (readline text))) = [])"

definition jsonl_malformed_start :: "decoder \<Rightarrow> string \<Rightarrow> bool" where
  "jsonl_malformed_start loads text =
     (loads (fst (readline text)) = None \<and> fst (readline (snd (readline text))) \<noteq> [])"

definition msgpack_not_ready :: "frame list \<Rightarrow> bool" where
  "msgpack_not_ready frames = (frames = [])"

text \<open>
  The object after the two effects that precede the parse of a changed file: the write of
  the new modification time into the ledger, and the \<^verbatim>\<open>open\<close>.
\<close>

definition mark_opened :: "string \<Rightarrow> real \<Rightarrow> catalog \<Rightarrow> catalog" where
  "mark_opened filename t self =
     self\<lparr>filename_to_mtime := (filename_to_mtime self)(filename \<mapsto> t),
          opened := opened self @ [filename]\<rparr>"

section \<open>Sample files\<close>

text \<open>
  A directory in which one pattern matches the listed files, in order.
\<close>

definition disk :: "string \<Rightarrow> (string \<times> real \<times> 'c) list \<Rightarrow> 'c filesystem" where
  "disk pattern entries =
     \<lparr>glob = (\<lambda>p. if p = pattern then map fst entries else []),
      lookup = map_of (map (\<lambda>(name, t, c). (name, \<lparr>mtime = t, content = c\<rparr>)) entries)\<rparr>"

text \<open>
  Two lines of a run, the documents they hold, and a decoder that agrees with
  \<^verbatim>\<open>json.loads\<close> on every line of the sample files below: the two lines, with or
  without their newline, the array \<^verbatim>\<open>[1, 2, 3]\<close>, and \<open>None\<close> on the lines that
  are not JSON (the empty string, \<^verbatim>\<open>{\<close>, a line cut short).
\<close>

definition start_line :: string where
  "start_line = ''[\"start\", {\"uid\": \"abc\"}]''"

definition stop_line :: string where
  "stop_line = ''[\"stop\", {\"exit_status\": \"success\"}]''"

definition sample_start :: json where
  "sample_start = JObj [(''uid'', JStr ''abc'')]"

definition sample_stop :: json where
  "sample_stop = JObj [(''exit_status'', JStr ''success'')]"

definition sample_loads :: decoder where
  "sample_loads s =
     (let t = (if s \<noteq> [] \<and> last s = newline then butlast s else s)
      in if t = start_line then Some (JArr [JStr ''start'', sample_start])
         else if t = stop_line then Some (JArr [JStr ''stop'', sample_stop])
         else if t = ''[1, 2, 3]'' then Some (JArr [JInt 1, JInt 2, JInt 3])
         else None)"

text \<open>
  Text files: a complete run; a file whose first line is not JSON and that has a second
  line; a run with no stop record yet; a run whose stop line is half written; a run
  whose last line is JSON but not a pair.
\<close>

definition text_complete :: string where
  "text_complete = start_line @ [newline] @ stop_line @ [newline]"

definition text_malformed :: string where
  "text_malformed = ''{'' @ [newline] @ ''[1, 2, 3]'' @ [newline]"

definition text_started :: string where
  "text_started = start_line @ [newline]"

definition text_partial_stop :: string where
  "text_partial_stop = start_line @ [newline] @ take 16 stop_line"

definition text_bad_last :: string where
  "text_bad_last = start_line @ [newline] @ ''[1, 2, 3]'' @ [newline]"

text \<open>
  Binary files: a complete run, and a run in which a record follows the stop record.
\<close>

definition frames_complete :: "frame list" where
  "frames_complete =
     [Frame (JArr [JStr ''start'', sample_start]),
      Frame (JArr [JStr ''event'', JObj [(''seq_num'', JInt 1)]]),
      Frame (JArr [JStr ''stop'', sample_stop])]"

definition frames_stop_then_event :: "frame list" where
  "frames_stop_then_event =
     [Frame (JArr [JStr ''start'', sample_start]),
      Frame (JArr [JStr ''stop'', sample_stop]),
      Frame (JArr [JStr ''event'', JObj [(''seq_num'', JInt 1)]])]"

text \<open>
  Directories: three text files of which the second is malformed; one text file and one
  binary file with a given modification time and content; a binary file whose first frame
  does not decode. Catalogs: one of each class on its pattern, with no filter and nothing
  loaded, and the text catalog after a cycle that loaded \<^verbatim>\<open>runs/e.jsonl\<close> at time 2.
\<close>

definition text_runs :: "string filesystem" where
  "text_runs = disk ''runs/*.jsonl''
     [(''runs/a.jsonl'', 10, text_complete),
      (''runs/b.jsonl'', 11, text_malformed),
      (''runs/c.jsonl'', 12, text_started)]"

definition one_text_file :: "real \<Rightarrow> string \<Rightarrow> string filesystem" where
  "one_text_file t c = disk ''runs/*.jsonl'' [(''runs/e.jsonl'', t, c)]"

definition one_binary_file :: "real \<Rightarrow> frame list \<Rightarrow> frame list filesystem" where
  "one_binary_file t c = disk ''runs/*.msgpack'' [(''runs/e.msgpack'', t, c)]"

definition binary_corrupt :: "frame list filesystem" where
  "binary_corrupt = one_binary_file 5 [Corrupt, Frame (JArr [JStr ''stop'', sample_stop])]"

definition jsonl_catalog :: catalog where
  "jsonl_catalog = BlueskyJSONLCatalog_init (SinglePath ''runs/*.jsonl'') None"

definition msgpack_catalog :: catalog where
  "msgpack_catalog = BlueskyMsgpackCatalog_init (SinglePath ''runs/*.msgpack'') None"

definition loaded_jsonl_catalog :: catalog where
  "loaded_jsonl_catalog =
     upsert (mark_opened ''runs/e.jsonl'' 2 jsonl_catalog) sample_start None ''runs/e.jsonl''"

section \<open>Properties of the facade\<close>

lemma init_fields_jsonl:
  "paths (BlueskyJSONLCatalog_init ps q) = (case ps of SinglePath p \<Rightarrow> [p] | PathList l \<Rightarrow> l)"
  "query (BlueskyJSONLCatalog_init ps q) = q"
  "filename_to_mtime (BlueskyJSONLCatalog_init ps q) = Map.empty"
  "upserts (BlueskyJSONLCatalog_init ps q) = []"
  "opened (BlueskyJSONLCatalog_init ps q) = []"
  by (simp_all add: BlueskyJSONLCatalog_init_def BlueskyInMemoryCatalog_init_def)

lemma init_fields_msgpack:
  "paths (BlueskyMsgpackCatalog_init ps q) = (case ps of SinglePath p \<Rightarrow> [p] | PathList l \<Rightarrow> l)"
  "query (BlueskyMsgpackCatalog_init ps q) = q"
  "filename_to_mtime (BlueskyMsgpackCatalog_init ps q) = Map.empty"
  "upserts (BlueskyMsgpackCatalog_init ps q) = []"
  "opened (BlueskyMsgpackCatalog_init ps q) = []"
  by (simp_all add: BlueskyMsgpackCatalog_init_def BlueskyInMemoryCatalog_init_def)

lemma search_fields_jsonl:
  "paths (BlueskyJSONLCatalog_search self q) = paths self"
  "query (BlueskyJSONLCatalog_search self q) = Some (search_query (query self) q)"
  "filename_to_mtime (BlueskyJSONLCatalog_search self q) = Map.empty"
  "upserts (BlueskyJSONLCatalog_search self q) = []"
  "opened (BlueskyJSONLCatalog_search self q) = []"
  by (simp_all add: BlueskyJSONLCatalog_search_def init_fields_jsonl)

lemma search_fields_msgpack:
  "paths (BlueskyMsgpackCatalog_search self q) = paths self"
  "query (BlueskyMsgpackCatalog_search self q) = Some (search_query (query self) q)"
  "filename_to_mtime (BlueskyMsgpackCatalog_search self q) = Map.empty"
  "upserts (BlueskyMsgpackCatalog_search self q) = []"
  "opened (BlueskyMsgpackCatalog_search self q) = []"
  by (simp_all add: BlueskyMsgpackCatalog_search_def init_fields_msgpack)

lemma search_query_falsy:
  "current = None \<or> current = Some [] \<Longrightarrow> search_query current q = q"
  by (auto simp: search_query_def)

lemma search_query_truthy:
  "d \<noteq> [] \<Longrightarrow> search_query (Some d) q = [(''$and'', JArr [JObj d, JObj q])]"
  by (simp add: search_query_def)

lemma upsert_fields:
  "filename_to_mtime (upsert self a b c) = filename_to_mtime self"
  "opened (upsert self a b c) = opened self"
  "paths (upsert self a b c) = paths self"
  "query (upsert self a b c) = query self"
  by (simp_all add: upsert_def)

lemma mark_opened_fields:
  "filename_to_mtime (mark_opened filename t self) = (filename_to_mtime self)(filename \<mapsto> t)"
  "opened (mark_opened filename t self) = opened self @ [filename]"
  "upserts (mark_opened filename t self) = upserts self"
  "paths (mark_opened filename t self) = paths self"
  "query (mark_opened filename t self) = query self"
  by (simp_all add: mark_opened_def)

lemma sample_catalog_fields:
  "paths jsonl_catalog = [''runs/*.jsonl'']"
  "filename_to_mtime jsonl_catalog = Map.empty"
  "upserts jsonl_catalog = []"
  "opened jsonl_catalog = []"
  "paths msgpack_catalog = [''runs/*.msgpack'']"
  "filename_to_mtime msgpack_catalog = Map.empty"
  "upserts msgpack_catalog = []"
  "opened msgpack_catalog = []"
  by (simp_all add: jsonl_catalog_def msgpack_catalog_def init_fields_jsonl init_fields_msgpack)

text \<open>
  Claim C10. When the catalog's current filter query is \<^verbatim>\<open>None\<close> or the empty mapping,
  \<^verbatim>\<open>search(q)\<close> builds the derived catalog with the query \<open>q\<close> itself, with no
  \<^verbatim>\<open>$and\<close> around it; when the current filter is a non-empty mapping \<open>d\<close>, the
  derived catalog's query is \<^verbatim>\<open>{'$and': [d, q]}\<close>. Both classes.
\<close>

theorem search_wraps_only_nonempty_query:
  fixes self :: catalog and q :: dict
  shows "(query self = None \<or> query self = Some [] \<longrightarrow>
           query (BlueskyJSONLCatalog_search self q) = Some q \<and>
           query (BlueskyMsgpackCatalog_search self q) = Some q)
       \<and> (\<forall>d. query self = Some d \<and> d \<noteq> [] \<longrightarrow>
           query (BlueskyJSONLCatalog_search self q) = Some [(''$and'', JArr [JObj d, JObj q])] \<and>
           query (BlueskyMsgpackCatalog_search self q) = Some [(''$and'', JArr [JObj d, JObj q])])"
proof (intro conjI impI allI)
  assume falsy: "query self = None \<or> query self = Some []"
  then have "search_query (query self) q = q"
    by (rule search_query_falsy)
  then show "query (BlueskyJSONLCatalog_search self q) = Some q"
    and "query (BlueskyMsgpackCatalog_search self q) = Some q"
    by (simp_all add: search_fields_jsonl search_fields_msgpack)
next
  fix d
  assume "query self = Some d \<and> d \<noteq> []"
  then have "search_query (query self) q = [(''$and'', JArr [JObj d, JObj q])]"
    by (simp add: search_query_truthy)
  then show "query (BlueskyJSONLCatalog_search self q) = Some [(''$and'', JArr [JObj d, JObj q])]"
    and "query (BlueskyMsgpackCatalog_search self q) = Some [(''$and'', JArr [JObj d, JObj q])]"
    by (simp_all add: search_fields_jsonl search_fields_msgpack)
qed

theorem search_wraps_only_nonempty_query_witness:
  "query (BlueskyJSONLCatalog_search (BlueskyJSONLCatalog_init (PathList [''runs/*.jsonl'']) None)
      [(''a'', JInt 1)]) = Some [(''a'', JInt 1)]
   \<and> query (BlueskyMsgpackCatalog_search (BlueskyMsgpackCatalog_init (PathList [''runs/*.msgpack'']) None)
      [(''a'', JInt 1)]) = Some [(''a'', JInt 1)]
   \<and> query (BlueskyJSONLCatalog_search
        (BlueskyJSONLCatalog_init (PathList [''runs/*.jsonl'']) (Some [(''a'', JInt 1)]))
        [(''b'', JInt 2)])
     = Some [(''$and'', JArr [JObj [(''a'', JInt 1)], JObj [(''b'', JInt 2)]])]
   \<and> query (BlueskyMsgpackCatalog_search
        (BlueskyMsgpackCatalog_init (PathList [''runs/*.msgpack'']) (Some [(''a'', JInt 1)]))
        [(''b'', JInt 2)])
     = Some [(''$and'', JArr [JObj [(''a'', JInt 1)], JObj [(''b'', JInt 2)]])]"
  using search_wraps_only_nonempty_query
          [of "BlueskyJSONLCatalog_init (PathList [''runs/*.jsonl'']) None" "[(''a'', JInt 1)]"]
        search_wraps_only_nonempty_query
          [of "BlueskyMsgpackCatalog_init (PathList [''runs/*.msgpack'']) None" "[(''a'', JInt 1)]"]
        search_wraps_only_nonempty_query
          [of "BlueskyJSONLCatalog_init (PathList [''runs/*.jsonl'']) (Some [(''a'', JInt 1)])"
              "[(''b'', JInt 2)]"]
        search_wraps_only_nonempty_query
          [of "BlueskyMsgpackCatalog_init (PathList [''runs/*.msgpack'']) (Some [(''a'', JInt 1)])"
              "[(''b'', JInt 2)]"]
  by (simp add: init_fields_jsonl init_fields_msgpack)

text \<open>
  Claim C1, as the code has it. On a catalog constructed with no filter, the first
  \<^verbatim>\<open>search({"a": 1})\<close> stores \<^verbatim>\<open>{"a": 1}\<close> with nothing around it, because the
  parent's filter is not true; the second \<^verbatim>\<open>search({"b": 2})\<close> therefore stores
  \<^verbatim>\<open>{"$and": [{"a": 1}, {"b": 2}]}\<close>, one level of \<^verbatim>\<open>$and\<close>. Both classes, every
  paths argument; the same holds when "no filter" is the empty mapping.
\<close>

theorem two_searches_nest_once:
  "query (BlueskyJSONLCatalog_search
            (BlueskyJSONLCatalog_search (BlueskyJSONLCatalog_init ps None) [(''a'', JInt 1)])
            [(''b'', JInt 2)])
     = Some [(''$and'', JArr [JObj [(''a'', JInt 1)], JObj [(''b'', JInt 2)]])]
   \<and> query (BlueskyMsgpackCatalog_search
            (BlueskyMsgpackCatalog_search (BlueskyMsgpackCatalog_init ps None) [(''a'', JInt 1)])
            [(''b'', JInt 2)])
     = Some [(''$and'', JArr [JObj [(''a'', JInt 1)], JObj [(''b'', JInt 2)]])]
   \<and> query (BlueskyJSONLCatalog_search (BlueskyJSONLCatalog_init ps None) [(''a'', JInt 1)])
     = Some [(''a'', JInt 1)]
   \<and> query (BlueskyMsgpackCatalog_search (BlueskyMsgpackCatalog_init ps None) [(''a'', JInt 1)])
     = Some [(''a'', JInt 1)]
   \<and> query (BlueskyJSONLCatalog_search
            (BlueskyJSONLCatalog_search (BlueskyJSONLCatalog_init ps (Some [])) [(''a'', JInt 1)])
            [(''b'', JInt 2)])
     = Some [(''$and'', JArr [JObj [(''a'', JInt 1)], JObj [(''b'', JInt 2)]])]
   \<and> query (BlueskyMsgpackCatalog_search
            (BlueskyMsgpackCatalog_search (BlueskyMsgpackCatalog_init ps (Some [])) [(''a'', JInt 1)])
            [(''b'', JInt 2)])
     = Some [(''$and'', JArr [JObj [(''a'', JInt 1)], JObj [(''b'', JInt 2)]])]"
  by (simp add: search_fields_jsonl search_fields_msgpack init_fields_jsonl init_fields_msgpack
      search_query_def)

text \<open>
  The stored query is not the doubly nested
  \<^verbatim>\<open>{"$and": [{"$and": [{}, {"a": 1}]}, {"b": 2}]}\<close> of claim C1.
\<close>

theorem two_searches_nested_form_counterexample:
  "query (BlueskyJSONLCatalog_search
            (BlueskyJSONLCatalog_search
               (BlueskyJSONLCatalog_init (PathList [''runs/*.jsonl'']) None) [(''a'', JInt 1)])
            [(''b'', JInt 2)])
     \<noteq> Some [(''$and'', JArr [JObj [(''$and'', JArr [JObj [], JObj [(''a'', JInt 1)]])],
                                JObj [(''b'', JInt 2)]])]"
  by (simp add: search_fields_jsonl init_fields_jsonl search_query_def)

text \<open>
  Claim C8. A single path \<open>p\<close> given to the constructor yields the very object that the
  one-element list \<open>[p]\<close> yields: the stored paths are \<open>[p]\<close>, and so a refresh
  cycle and \<^verbatim>\<open>search\<close> give the same results on both. Both classes.
\<close>

theorem single_path_as_list:
  "BlueskyJSONLCatalog_init (SinglePath p) q = BlueskyJSONLCatalog_init (PathList [p]) q
   \<and> paths (BlueskyJSONLCatalog_init (SinglePath p) q) = [p]
   \<and> BlueskyJSONLCatalog_load loads fs (BlueskyJSONLCatalog_init (SinglePath p) q)
       = BlueskyJSONLCatalog_load loads fs (BlueskyJSONLCatalog_init (PathList [p]) q)
   \<and> BlueskyJSONLCatalog_search (BlueskyJSONLCatalog_init (SinglePath p) q) q'
       = BlueskyJSONLCatalog_search (BlueskyJSONLCatalog_init (PathList [p]) q) q'
   \<and> BlueskyMsgpackCatalog_init (SinglePath p) q = BlueskyMsgpackCatalog_init (PathList [p]) q
   \<and> paths (BlueskyMsgpackCatalog_init (SinglePath p) q) = [p]
   \<and> BlueskyMsgpackCatalog_load fsb (BlueskyMsgpackCatalog_init (SinglePath p) q)
       = BlueskyMsgpackCatalog_load fsb (BlueskyMsgpackCatalog_init (PathList [p]) q)
   \<and> BlueskyMsgpackCatalog_search (BlueskyMsgpackCatalog_init (SinglePath p) q) q'
       = BlueskyMsgpackCatalog_search (BlueskyMsgpackCatalog_init (PathList [p]) q) q'"
proof -
  have j: "BlueskyJSONLCatalog_init (SinglePath p) q = BlueskyJSONLCatalog_init (PathList [p]) q"
    by (simp add: BlueskyJSONLCatalog_init_def)
  have m: "BlueskyMsgpackCatalog_init (SinglePath p) q = BlueskyMsgpackCatalog_init (PathList [p]) q"
    by (simp add: BlueskyMsgpackCatalog_init_def)
  show ?thesis
    by (simp add: j m init_fields_jsonl init_fields_msgpack)
qed

subsection \<open>Parent and derived catalog\<close>

lemma jsonl_search_at_result:
  "r < length h \<Longrightarrow>
   jsonl_search_at h r q = Some (h @ [BlueskyJSONLCatalog_search (h ! r) q], length h)"
  by (simp add: jsonl_search_at_def new_object_def)

lemma msgpack_search_at_result:
  "r < length h \<Longrightarrow>
   msgpack_search_at h r q = Some (h @ [BlueskyMsgpackCatalog_search (h ! r) q], length h)"
  by (simp add: msgpack_search_at_def new_object_def)

lemma jsonl_load_at_others:
  "jsonl_load_at loads fs h r = Some (h', e) \<Longrightarrow> i \<noteq> r \<Longrightarrow> h' ! i = h ! i"
  by (auto simp: jsonl_load_at_def split: if_splits prod.splits)

lemma msgpack_load_at_others:
  "msgpack_load_at fs h r = Some (h', e) \<Longrightarrow> i \<noteq> r \<Longrightarrow> h' ! i = h ! i"
  by (auto simp: msgpack_load_at_def split: if_splits prod.splits)

text \<open>
  Claim C9. \<^verbatim>\<open>search\<close> on the object at \<open>r\<close> creates one new object and changes no
  existing one: the parent keeps its paths, its filter query and its ledger. The derived
  object has the parent's paths and an empty ledger. The two share no loader state: a
  refresh cycle on either leaves the other as it was. Both classes.
\<close>

theorem search_keeps_parent_and_starts_empty:
  "(r < length h \<longrightarrow>
      jsonl_search_at h r q = Some (h @ [BlueskyJSONLCatalog_search (h ! r) q], length h)
      \<and> msgpack_search_at h r q = Some (h @ [BlueskyMsgpackCatalog_search (h ! r) q], length h))
   \<and> (jsonl_search_at h r q = Some (h', d) \<or> msgpack_search_at h r q = Some (h', d) \<longrightarrow>
        r < length h \<and> d = length h \<and> length h' = Suc (length h)
        \<and> (\<forall>i < length h. h' ! i = h ! i)
        \<and> paths (h' ! d) = paths (h ! r)
        \<and> filename_to_mtime (h' ! d) = Map.empty
        \<and> (\<forall>loads fs h'' e. jsonl_load_at loads fs h' d = Some (h'', e) \<longrightarrow> h'' ! r = h ! r)
        \<and> (\<forall>fs h'' e. msgpack_load_at fs h' d = Some (h'', e) \<longrightarrow> h'' ! r = h ! r)
        \<and> (\<forall>loads fs h'' e. jsonl_load_at loads fs h' r = Some (h'', e) \<longrightarrow> h'' ! d = h' ! d)
        \<and> (\<forall>fs h'' e. msgpack_load_at fs h' r = Some (h'', e) \<longrightarrow> h'' ! d = h' ! d))"
proof (intro conjI impI)
  assume "r < length h"
  then show "jsonl_search_at h r q = Some (h @ [BlueskyJSONLCatalog_search (h ! r) q], length h)"
    and "msgpack_search_at h r q = Some (h @ [BlueskyMsgpackCatalog_search (h ! r) q], length h)"
    by (simp_all add: jsonl_search_at_result msgpack_search_at_result)
next
  assume found: "jsonl_search_at h r q = Some (h', d) \<or> msgpack_search_at h r q = Some (h', d)"
  then show valid: "r < length h"
    by (auto simp: jsonl_search_at_def msgpack_search_at_def split: if_splits)
  from found valid show fresh: "d = length h"
    by (auto simp: jsonl_search_at_result msgpack_search_at_result)
  from found valid
  have store: "h' = h @ [BlueskyJSONLCatalog_search (h ! r) q]
                 \<or> h' = h @ [BlueskyMsgpackCatalog_search (h ! r) q]"
    by (auto simp: jsonl_search_at_result msgpack_search_at_result)
  then show "length h' = Suc (length h)"
    by auto
  from store show old: "\<forall>i < length h. h' ! i = h ! i"
    by (auto simp: nth_append)
  from store fresh show "paths (h' ! d) = paths (h ! r)"
    by (auto simp: search_fields_jsonl search_fields_msgpack)
  from store fresh show "filename_to_mtime (h' ! d) = Map.empty"
    by (auto simp: search_fields_jsonl search_fields_msgpack)
  from valid fresh have apart: "r \<noteq> d"
    by simp
  from old valid have parent: "h' ! r = h ! r"
    by simp
  show "\<forall>loads fs h'' e. jsonl_load_at loads fs h' d = Some (h'', e) \<longrightarrow> h'' ! r = h ! r"
    using jsonl_load_at_others [OF _ apart] parent by metis
  show "\<forall>fs h'' e. msgpack_load_at fs h' d = Some (h'', e) \<longrightarrow> h'' ! r = h ! r"
    using msgpack_load_at_others [OF _ apart] parent by metis
  show "\<forall>loads fs h'' e. jsonl_load_at loads fs h' r = Some (h'', e) \<longrightarrow> h'' ! d = h' ! d"
    using jsonl_load_at_others [OF _ apart [symmetric]] by blast
  show "\<forall>fs h'' e. msgpack_load_at fs h' r = Some (h'', e) \<longrightarrow> h'' ! d = h' ! d"
    using msgpack_load_at_others [OF _ apart [symmetric]] by blast
qed

theorem search_keeps_parent_and_starts_empty_witness:
  "jsonl_search_at [loaded_jsonl_catalog] 0 [(''a'', JInt 1)]
     = Some ([loaded_jsonl_catalog,
              BlueskyJSONLCatalog_search loaded_jsonl_catalog [(''a'', JInt 1)]], 1)
   \<and> filename_to_mtime loaded_jsonl_catalog ''runs/e.jsonl'' = Some 2
   \<and> filename_to_mtime
        ([loaded_jsonl_catalog, BlueskyJSONLCatalog_search loaded_jsonl_catalog [(''a'', JInt 1)]] ! 1)
        ''runs/e.jsonl'' = None
   \<and> paths
        ([loaded_jsonl_catalog, BlueskyJSONLCatalog_search loaded_jsonl_catalog [(''a'', JInt 1)]] ! 1)
      = [''runs/*.jsonl'']"
proof -
  let ?h = "[loaded_jsonl_catalog]"
  let ?h' = "[loaded_jsonl_catalog, BlueskyJSONLCatalog_search loaded_jsonl_catalog [(''a'', JInt 1)]]"
  have valid: "(0::nat) < length ?h"
    by simp
  from search_keeps_parent_and_starts_empty [of 0 ?h "[(''a'', JInt 1)]", THEN conjunct1, THEN mp, OF valid]
  have found: "jsonl_search_at ?h 0 [(''a'', JInt 1)] = Some (?h', 1)"
    by simp
  then have either: "jsonl_search_at ?h 0 [(''a'', JInt 1)] = Some (?h', 1)
      \<or> msgpack_search_at ?h 0 [(''a'', JInt 1)] = Some (?h', 1)"
    by (rule disjI1)
  from search_keeps_parent_and_starts_empty
      [of 0 ?h "[(''a'', JInt 1)]" ?h' 1, THEN conjunct2, THEN mp, OF either]
  have "paths (?h' ! 1) = paths (?h ! 0)" and "filename_to_mtime (?h' ! 1) = Map.empty"
    by blast+
  with found show ?thesis
    by (simp add: loaded_jsonl_catalog_def upsert_fields mark_opened_fields sample_catalog_fields)
qed

section \<open>Properties of \<^verbatim>\<open>get_stop\<close>\<close>

lemma jsonl_get_stop_pair:
  assumes "lookup fs filename = Some f"
    and "tail (content f) = Some lastline"
    and "lastline \<noteq> []"
    and "loads lastline = Some v"
    and "unpack_pair v = Inr (name, doc)"
  shows "jsonl_get_stop loads fs filename = Inr (if name = JStr ''stop'' then Some doc else None)"
  using assms by (simp add: jsonl_get_stop_def)

lemma get_stop_loop_no_stop:
  "\<forall>r \<in> set recs. fst r \<noteq> JStr ''stop'' \<Longrightarrow>
   msgpack_get_stop_loop (map record_frame recs @ rest) = msgpack_get_stop_loop rest"
  by (induction recs) (simp_all add: record_frame_def case_prod_beta)

lemma get_stop_loop_first_stop:
  assumes "\<forall>r \<in> set pre. fst r \<noteq> JStr ''stop''"
  shows "msgpack_get_stop_loop (map record_frame pre @ record_frame (JStr ''stop'', doc) # rest)
           = Inr (Some doc)"
  by (simp add: get_stop_loop_no_stop [OF assms]) (simp add: record_frame_def)

subsection \<open>Facts about the sample files\<close>

lemma one_text_file_simps:
  "glob (one_text_file t c) ''runs/*.jsonl'' = [''runs/e.jsonl'']"
  "lookup (one_text_file t c) ''runs/e.jsonl'' = Some \<lparr>mtime = t, content = c\<rparr>"
  by (simp_all add: one_text_file_def disk_def)

lemma one_binary_file_simps:
  "glob (one_binary_file t c) ''runs/*.msgpack'' = [''runs/e.msgpack'']"
  "lookup (one_binary_file t c) ''runs/e.msgpack'' = Some \<lparr>mtime = t, content = c\<rparr>"
  by (simp_all add: one_binary_file_def disk_def)

lemma sample_loads_lines:
  "sample_loads start_line = Some (JArr [JStr ''start'', sample_start])"
  "sample_loads stop_line = Some (JArr [JStr ''stop'', sample_stop])"
  "sample_loads ''[1, 2, 3]'' = Some (JArr [JInt 1, JInt 2, JInt 3])"
  "sample_loads [] = None"
  by (simp_all add: sample_loads_def start_line_def stop_line_def newline_def)

lemma lines_nonempty: "start_line \<noteq> []" "stop_line \<noteq> []"
  by (simp_all add: start_line_def stop_line_def)

lemma text_complete_lines:
  "sample_loads (fst (readline text_complete)) = Some (JArr [JStr ''start'', sample_start])"
  "tail text_complete = Some stop_line"
  by (simp_all add: text_complete_def sample_loads_def tail_def start_line_def stop_line_def
      newline_def whitespace_def)

lemma text_started_lines:
  "sample_loads (fst (readline text_started)) = Some (JArr [JStr ''start'', sample_start])"
  "tail text_started = Some start_line"
  by (simp_all add: text_started_def sample_loads_def tail_def start_line_def stop_line_def
      newline_def whitespace_def)

lemma text_malformed_lines:
  "jsonl_malformed_start sample_loads text_malformed"
  by (simp add: jsonl_malformed_start_def text_malformed_def sample_loads_def start_line_def
      stop_line_def newline_def)

lemma text_empty_not_ready: "jsonl_not_ready sample_loads []"
  by (simp add: jsonl_not_ready_def sample_loads_lines)

lemma text_partial_stop_lines:
  "tail text_partial_stop = Some (take 16 stop_line)"
  "sample_loads (take 16 stop_line) = None"
  by (simp_all add: text_partial_stop_def sample_loads_def tail_def start_line_def stop_line_def
      newline_def whitespace_def)

lemma text_bad_last_lines:
  "tail text_bad_last = Some ''[1, 2, 3]''"
  by (simp add: text_bad_last_def tail_def start_line_def newline_def whitespace_def)

lemma frames_complete_stop: "msgpack_get_stop_loop frames_complete = Inr (Some sample_stop)"
  by (simp add: frames_complete_def)

lemma frames_as_records:
  "frames_complete = map record_frame
     ([(JStr ''start'', sample_start), (JStr ''event'', JObj [(''seq_num'', JInt 1)])]
      @ [(JStr ''stop'', sample_stop)])"
  "frames_stop_then_event = map record_frame [(JStr ''start'', sample_start)]
     @ record_frame (JStr ''stop'', sample_stop)
     # [record_frame (JStr ''event'', JObj [(''seq_num'', JInt 1)])]"
  by (simp_all add: frames_complete_def frames_stop_then_event_def record_frame_def)

subsection \<open>The binary encoding\<close>

text \<open>
  Claim C3, as the code has it. On a binary file of records, \<^verbatim>\<open>get_stop\<close> returns
  the document of the first record named \<^verbatim>\<open>'stop'\<close>, whatever follows it, and
  \<^verbatim>\<open>None\<close> when no record has that name. When no record before the final one is
  named \<^verbatim>\<open>'stop'\<close>, that is the final record's document if the final record is
  named \<^verbatim>\<open>'stop'\<close>, and \<^verbatim>\<open>None\<close> otherwise.
\<close>

theorem msgpack_get_stop_first_stop_record:
  "(lookup fs filename = Some f
      \<and> content f = map record_frame pre @ record_frame (JStr ''stop'', doc) # rest
      \<and> (\<forall>r \<in> set pre. fst r \<noteq> JStr ''stop'')
    \<longrightarrow> msgpack_get_stop fs filename = Inr (Some doc))
   \<and> (lookup fs filename = Some f
      \<and> content f = map record_frame recs
      \<and> (\<forall>r \<in> set recs. fst r \<noteq> JStr ''stop'')
    \<longrightarrow> msgpack_get_stop fs filename = Inr None)
   \<and> (lookup fs filename = Some f
      \<and> content f = map record_frame (pre @ [(name, doc)])
      \<and> (\<forall>r \<in> set pre. fst r \<noteq> JStr ''stop'')
    \<longrightarrow> msgpack_get_stop fs filename = Inr (if name = JStr ''stop'' then Some doc else None))"
proof (intro conjI impI; elim conjE)
  assume there: "lookup fs filename = Some f"
    and frames: "content f = map record_frame pre @ record_frame (JStr ''stop'', doc) # rest"
    and before: "\<forall>r \<in> set pre. fst r \<noteq> JStr ''stop''"
  show "msgpack_get_stop fs filename = Inr (Some doc)"
    by (simp add: msgpack_get_stop_def there frames get_stop_loop_first_stop [OF before])
next
  assume there: "lookup fs filename = Some f"
    and frames: "content f = map record_frame recs"
    and none: "\<forall>r \<in> set recs. fst r \<noteq> JStr ''stop''"
  from get_stop_loop_no_stop [OF none, of "[]"]
  show "msgpack_get_stop fs filename = Inr None"
    by (simp add: msgpack_get_stop_def there frames)
next
  assume there: "lookup fs filename = Some f"
    and frames: "content f = map record_frame (pre @ [(name, doc)])"
    and before: "\<forall>r \<in> set pre. fst r \<noteq> JStr ''stop''"
  from get_stop_loop_no_stop [OF before, of "[record_frame (name, doc)]"]
  show "msgpack_get_stop fs filename = Inr (if name = JStr ''stop'' then Some doc else None)"
    by (simp add: msgpack_get_stop_def there frames) (simp add: record_frame_def)
qed

theorem msgpack_get_stop_first_stop_record_witness:
  "msgpack_get_stop (one_binary_file 7 frames_stop_then_event) ''runs/e.msgpack''
     = Inr (Some sample_stop)
   \<and> msgpack_get_stop (one_binary_file 7 frames_complete) ''runs/e.msgpack''
     = Inr (Some sample_stop)
   \<and> msgpack_get_stop (one_binary_file 7 (butlast frames_complete)) ''runs/e.msgpack''
     = Inr None"
proof -
  have h1: "lookup (one_binary_file 7 frames_stop_then_event) ''runs/e.msgpack''
              = Some \<lparr>mtime = 7, content = frames_stop_then_event\<rparr>
      \<and> content \<lparr>mtime = 7, content = frames_stop_then_event\<rparr>
          = map record_frame [(JStr ''start'', sample_start)]
             @ record_frame (JStr ''stop'', sample_stop)
             # [record_frame (JStr ''event'', JObj [(''seq_num'', JInt 1)])]
      \<and> (\<forall>r \<in> set [(JStr ''start'', sample_start)]. fst r \<noteq> JStr ''stop'')"
    by (simp add: one_binary_file_simps frames_as_records(2))
  have h2: "lookup (one_binary_file 7 frames_complete) ''runs/e.msgpack''
              = Some \<lparr>mtime = 7, content = frames_complete\<rparr>
      \<and> content \<lparr>mtime = 7, content = frames_complete\<rparr>
          = map record_frame
             ([(JStr ''start'', sample_start), (JStr ''event'', JObj [(''seq_num'', JInt 1)])]
              @ [(JStr ''stop'', sample_stop)])
      \<and> (\<forall>r \<in> set [(JStr ''start'', sample_start),
                       (JStr ''event'', JObj [(''seq_num'', JInt 1)])]. fst r \<noteq> JStr ''stop'')"
    by (simp add: one_binary_file_simps frames_as_records(1))
  have h3: "lookup (one_binary_file 7 (butlast frames_complete)) ''runs/e.msgpack''
              = Some \<lparr>mtime = 7, content = butlast frames_complete\<rparr>
      \<and> content \<lparr>mtime = 7, content = butlast frames_complete\<rparr>
          = map record_frame
             [(JStr ''start'', sample_start), (JStr ''event'', JObj [(''seq_num'', JInt 1)])]
      \<and> (\<forall>r \<in> set [(JStr ''start'', sample_start),
                       (JStr ''event'', JObj [(''seq_num'', JInt 1)])]. fst r \<noteq> JStr ''stop'')"
    by (simp add: one_binary_file_simps frames_complete_def record_frame_def)
  from msgpack_get_stop_first_stop_record [THEN conjunct1, THEN mp, OF h1]
    msgpack_get_stop_first_stop_record [THEN conjunct2, THEN conjunct2, THEN mp, OF h2]
    msgpack_get_stop_first_stop_record [THEN conjunct2, THEN conjunct1, THEN mp, OF h3]
  show ?thesis
    by simp
qed

text \<open>
  A file in which an event record follows the stop record: the final record is not named
  \<^verbatim>\<open>'stop'\<close>, and \<^verbatim>\<open>get_stop\<close> returns the stop document, not \<^verbatim>\<open>None\<close>.
\<close>

theorem msgpack_get_stop_final_record_counterexample:
  "last frames_stop_then_event = record_frame (JStr ''event'', JObj [(''seq_num'', JInt 1)])
   \<and> msgpack_get_stop (one_binary_file 7 frames_stop_then_event) ''runs/e.msgpack''
       = Inr (Some sample_stop)
   \<and> msgpack_get_stop (one_binary_file 7 frames_stop_then_event) ''runs/e.msgpack'' \<noteq> Inr None"
  by (simp add: msgpack_get_stop_def one_binary_file_simps frames_stop_then_event_def
      record_frame_def)

subsection \<open>The text encoding\<close>

text \<open>
  Claim C7, as the code has it. When the last non-empty line of a text file is not JSON
  (\<^verbatim>\<open>json.loads\<close> raises \<^verbatim>\<open>JSONDecodeError\<close>), \<^verbatim>\<open>get_stop\<close> returns
  \<^verbatim>\<open>None\<close> and raises nothing. When the line is JSON and the value does not unpack
  into two items, the \<^verbatim>\<open>ValueError\<close> or \<^verbatim>\<open>TypeError\<close> of the unpacking reaches
  the caller: only \<^verbatim>\<open>JSONDecodeError\<close> is caught.
\<close>

theorem jsonl_get_stop_swallows_json_errors:
  "(lookup fs filename = Some f \<and> tail (content f) = Some lastline \<and> loads lastline = None
      \<longrightarrow> jsonl_get_stop loads fs filename = Inr None)
   \<and> (lookup fs filename = Some f \<and> tail (content f) = Some lastline \<and> lastline \<noteq> []
        \<and> loads lastline = Some v \<and> unpack_pair v = Inl e
      \<longrightarrow> jsonl_get_stop loads fs filename = Inl e)"
  by (simp add: jsonl_get_stop_def)

theorem jsonl_get_stop_swallows_json_errors_witness:
  "jsonl_get_stop sample_loads (one_text_file 4 text_partial_stop) ''runs/e.jsonl'' = Inr None
   \<and> jsonl_get_stop sample_loads (one_text_file 4 text_bad_last) ''runs/e.jsonl'' = Inl ValueError"
proof -
  have h1: "lookup (one_text_file 4 text_partial_stop) ''runs/e.jsonl''
              = Some \<lparr>mtime = 4, content = text_partial_stop\<rparr>
      \<and> tail (content \<lparr>mtime = 4, content = text_partial_stop\<rparr>) = Some (take 16 stop_line)
      \<and> sample_loads (take 16 stop_line) = None"
    by (simp add: one_text_file_simps text_partial_stop_lines)
  have h2: "lookup (one_text_file 4 text_bad_last) ''runs/e.jsonl''
              = Some \<lparr>mtime = 4, content = text_bad_last\<rparr>
      \<and> tail (content \<lparr>mtime = 4, content = text_bad_last\<rparr>) = Some ''[1, 2, 3]''
      \<and> ''[1, 2, 3]'' \<noteq> []
      \<and> sample_loads ''[1, 2, 3]'' = Some (JArr [JInt 1, JInt 2, JInt 3])
      \<and> unpack_pair (JArr [JInt 1, JInt 2, JInt 3]) = Inl ValueError"
    by (simp add: one_text_file_simps text_bad_last_lines sample_loads_lines)
  from jsonl_get_stop_swallows_json_errors
      [where loads = sample_loads and lastline = "take 16 stop_line",
        THEN conjunct1, THEN mp, OF h1]
    jsonl_get_stop_swallows_json_errors
      [where loads = sample_loads and lastline = "''[1, 2, 3]''",
        THEN conjunct2, THEN mp, OF h2]
  show ?thesis
    by simp
qed

text \<open>
  A file whose last line is the JSON array \<^verbatim>\<open>[1, 2, 3]\<close>: the line does not decode
  as a (name, document) pair, and \<^verbatim>\<open>get_stop\<close> raises \<^verbatim>\<open>ValueError\<close>.
\<close>

theorem jsonl_get_stop_not_a_pair_counterexample:
  "tail text_bad_last = Some ''[1, 2, 3]''
   \<and> sample_loads ''[1, 2, 3]'' = Some (JArr [JInt 1, JInt 2, JInt 3])
   \<and> unpack_pair (JArr [JInt 1, JInt 2, JInt 3]) = Inl ValueError
   \<and> jsonl_get_stop sample_loads (one_text_file 4 text_bad_last) ''runs/e.jsonl'' = Inl ValueError"
  by (simp add: jsonl_get_stop_def one_text_file_simps text_bad_last_lines sample_loads_lines)

section \<open>Properties of the loader\<close>

subsection \<open>One file\<close>

lemma jsonl_load_file_unchanged:
  assumes "lookup fs filename = Some f"
    and "filename_to_mtime self filename = Some (mtime f)"
  shows "jsonl_load_file loads fs filename self = (self, None)"
  using assms by (simp add: jsonl_load_file_def)

lemma msgpack_load_file_unchanged:
  assumes "lookup fs filename = Some f"
    and "filename_to_mtime self filename = Some (mtime f)"
  shows "msgpack_load_file fs filename self = (self, None)"
  using assms by (simp add: msgpack_load_file_def)

lemma jsonl_load_file_ledger:
  "filename_to_mtime (fst (jsonl_load_file loads fs filename self)) =
     (case lookup fs filename of
        None \<Rightarrow> filename_to_mtime self
      | Some f \<Rightarrow> (filename_to_mtime self)(filename \<mapsto> mtime f))"
  by (auto simp: jsonl_load_file_def Let_def upsert_fields map_upd_triv
      split: option.splits prod.splits sum.splits)

lemma msgpack_load_file_ledger:
  "filename_to_mtime (fst (msgpack_load_file fs filename self)) =
     (case lookup fs filename of
        None \<Rightarrow> filename_to_mtime self
      | Some f \<Rightarrow> (filename_to_mtime self)(filename \<mapsto> mtime f))"
  by (auto simp: msgpack_load_file_def Let_def upsert_fields map_upd_triv
      split: option.splits prod.splits sum.splits list.splits frame.splits)

lemma jsonl_load_file_paths:
  "paths (fst (jsonl_load_file loads fs filename self)) = paths self"
  "query (fst (jsonl_load_file loads fs filename self)) = query self"
  by (auto simp: jsonl_load_file_def Let_def upsert_fields
      split: option.splits prod.splits sum.splits)

lemma msgpack_load_file_paths:
  "paths (fst (msgpack_load_file fs filename self)) = paths self"
  "query (fst (msgpack_load_file fs filename self)) = query self"
  by (auto simp: msgpack_load_file_def Let_def upsert_fields
      split: option.splits prod.splits sum.splits list.splits frame.splits)

lemma jsonl_load_file_error_if_missing:
  "jsonl_load_file loads fs g self = (self', None) \<Longrightarrow> \<exists>f. lookup fs g = Some f"
  by (cases "lookup fs g") (simp_all add: jsonl_load_file_def)

lemma msgpack_load_file_error_if_missing:
  "msgpack_load_file fs g self = (self', None) \<Longrightarrow> \<exists>f. lookup fs g = Some f"
  by (cases "lookup fs g") (simp_all add: msgpack_load_file_def)

lemma jsonl_load_file_not_ready:
  assumes "lookup fs filename = Some f"
    and "filename_to_mtime self filename \<noteq> Some (mtime f)"
    and "jsonl_not_ready loads (content f)"
  shows "jsonl_load_file loads fs filename self = (mark_opened filename (mtime f) self, None)"
  using assms
  by (auto simp: jsonl_load_file_def jsonl_not_ready_def mark_opened_def Let_def
      split: prod.splits)

lemma msgpack_load_file_not_ready:
  assumes "lookup fs filename = Some f"
    and "filename_to_mtime self filename \<noteq> Some (mtime f)"
    and "msgpack_not_ready (content f)"
  shows "msgpack_load_file fs filename self = (mark_opened filename (mtime f) self, None)"
  using assms
  by (auto simp: msgpack_load_file_def msgpack_not_ready_def mark_opened_def Let_def)

lemma jsonl_load_file_malformed_start:
  assumes "lookup fs filename = Some f"
    and "filename_to_mtime self filename \<noteq> Some (mtime f)"
    and "jsonl_malformed_start loads (content f)"
  shows "jsonl_load_file loads fs filename self
           = (mark_opened filename (mtime f) self, Some JSONDecodeError)"
  using assms
  by (auto simp: jsonl_load_file_def jsonl_malformed_start_def mark_opened_def Let_def
      split: prod.splits)

lemma msgpack_load_file_malformed_start:
  assumes "lookup fs filename = Some f"
    and "filename_to_mtime self filename \<noteq> Some (mtime f)"
  shows "content f = Corrupt # rest \<Longrightarrow>
           msgpack_load_file fs filename self
             = (mark_opened filename (mtime f) self, Some UnpackException)"
    and "content f = Frame v # rest \<Longrightarrow> unpack_pair v = Inl e \<Longrightarrow>
           msgpack_load_file fs filename self = (mark_opened filename (mtime f) self, Some e)"
  using assms by (auto simp: msgpack_load_file_def mark_opened_def Let_def)

lemma jsonl_load_file_upserts:
  assumes "lookup fs filename = Some f"
    and "filename_to_mtime self filename \<noteq> Some (mtime f)"
    and "loads (fst (readline (content f))) = Some v"
    and "unpack_pair v = Inr (name, start)"
    and "jsonl_get_stop loads fs filename = Inr stop"
  shows "jsonl_load_file loads fs filename self
           = (upsert (mark_opened filename (mtime f) self) start stop filename, None)"
  using assms
  by (auto simp: jsonl_load_file_def mark_opened_def Let_def split: prod.splits)

lemma msgpack_load_file_upserts:
  assumes "lookup fs filename = Some f"
    and "filename_to_mtime self filename \<noteq> Some (mtime f)"
    and "content f = Frame v # rest"
    and "unpack_pair v = Inr (name, start)"
    and "msgpack_get_stop fs filename = Inr stop"
  shows "msgpack_load_file fs filename self
           = (upsert (mark_opened filename (mtime f) self) start stop filename, None)"
  using assms
  by (auto simp: msgpack_load_file_def mark_opened_def Let_def)

lemma jsonl_load_file_changed_opened:
  assumes "lookup fs filename = Some f"
    and "filename_to_mtime self filename \<noteq> Some (mtime f)"
  shows "opened (fst (jsonl_load_file loads fs filename self)) = opened self @ [filename]"
  using assms
  by (auto simp: jsonl_load_file_def Let_def upsert_fields
      split: option.splits prod.splits sum.splits)

lemma msgpack_load_file_changed_opened:
  assumes "lookup fs filename = Some f"
    and "filename_to_mtime self filename \<noteq> Some (mtime f)"
  shows "opened (fst (msgpack_load_file fs filename self)) = opened self @ [filename]"
  using assms
  by (auto simp: msgpack_load_file_def Let_def upsert_fields
      split: option.splits prod.splits sum.splits list.splits frame.splits)

lemma jsonl_load_file_opened_other:
  "filename \<noteq> g \<Longrightarrow>
   count_list (opened (fst (jsonl_load_file loads fs g self))) filename
     = count_list (opened self) filename"
  by (auto simp: jsonl_load_file_def Let_def upsert_fields
      split: option.splits prod.splits sum.splits)

lemma msgpack_load_file_opened_other:
  "filename \<noteq> g \<Longrightarrow>
   count_list (opened (fst (msgpack_load_file fs g self))) filename
     = count_list (opened self) filename"
  by (auto simp: msgpack_load_file_def Let_def upsert_fields
      split: option.splits prod.splits sum.splits list.splits frame.splits)

subsection \<open>The loops\<close>

lemma jsonl_load_files_append:
  "jsonl_load_files loads fs (xs @ ys) self =
     (case jsonl_load_files loads fs xs self of
        (self', Some e) \<Rightarrow> (self', Some e)
      | (self', None) \<Rightarrow> jsonl_load_files loads fs ys self')"
  by (induction xs arbitrary: self) (auto split: prod.splits option.splits)

lemma msgpack_load_files_append:
  "msgpack_load_files fs (xs @ ys) self =
     (case msgpack_load_files fs xs self of
        (self', Some e) \<Rightarrow> (self', Some e)
      | (self', None) \<Rightarrow> msgpack_load_files fs ys self')"
  by (induction xs arbitrary: self) (auto split: prod.splits option.splits)

lemma jsonl_load_paths_concat:
  "jsonl_load_paths loads fs ps self = jsonl_load_files loads fs (concat (map (glob fs) ps)) self"
  by (induction ps arbitrary: self)
     (auto simp: jsonl_load_files_append split: prod.splits option.splits)

lemma msgpack_load_paths_concat:
  "msgpack_load_paths fs ps self = msgpack_load_files fs (concat (map (glob fs) ps)) self"
  by (induction ps arbitrary: self)
     (auto simp: msgpack_load_files_append split: prod.splits option.splits)

lemma jsonl_cycle_from:
  assumes "concat (map (glob fs) (paths self)) = pre @ filename # post"
    and "jsonl_load_files loads fs pre self = (self1, None)"
  shows "BlueskyJSONLCatalog_load loads fs self
           = (case jsonl_load_file loads fs filename self1 of
                (self2, Some e) \<Rightarrow> (self2, Some e)
              | (self2, None) \<Rightarrow> jsonl_load_files loads fs post self2)"
  using assms
  by (simp add: BlueskyJSONLCatalog_load_def jsonl_load_paths_concat jsonl_load_files_append)

lemma msgpack_cycle_from:
  assumes "concat (map (glob fs) (paths self)) = pre @ filename # post"
    and "msgpack_load_files fs pre self = (self1, None)"
  shows "BlueskyMsgpackCatalog_load fs self
           = (case msgpack_load_file fs filename self1 of
                (self2, Some e) \<Rightarrow> (self2, Some e)
              | (self2, None) \<Rightarrow> msgpack_load_files fs post self2)"
  using assms
  by (simp add: BlueskyMsgpackCatalog_load_def msgpack_load_paths_concat msgpack_load_files_append)

lemma jsonl_load_files_unchanged:
  assumes "\<forall>filename \<in> set files. \<exists>f. lookup fs filename = Some f
             \<and> filename_to_mtime self filename = Some (mtime f)"
  shows "jsonl_load_files loads fs files self = (self, None)"
  using assms
proof (induction files)
  case Nil
  show ?case by simp
next
  case (Cons filename files)
  then obtain f where "lookup fs filename = Some f"
    and "filename_to_mtime self filename = Some (mtime f)"
    by auto
  then have "jsonl_load_file loads fs filename self = (self, None)"
    by (rule jsonl_load_file_unchanged)
  with Cons show ?case by simp
qed

lemma msgpack_load_files_unchanged:
  assumes "\<forall>filename \<in> set files. \<exists>f. lookup fs filename = Some f
             \<and> filename_to_mtime self filename = Some (mtime f)"
  shows "msgpack_load_files fs files self = (self, None)"
  using assms
proof (induction files)
  case Nil
  show ?case by simp
next
  case (Cons filename files)
  then obtain f where "lookup fs filename = Some f"
    and "filename_to_mtime self filename = Some (mtime f)"
    by auto
  then have "msgpack_load_file fs filename self = (self, None)"
    by (rule msgpack_load_file_unchanged)
  with Cons show ?case by simp
qed

lemma jsonl_load_files_paths:
  "paths (fst (jsonl_load_files loads fs files self)) = paths self"
proof (induction files arbitrary: self)
  case Nil
  show ?case by simp
next
  case (Cons g files)
  obtain self' r where step: "jsonl_load_file loads fs g self = (self', r)"
    by (cases "jsonl_load_file loads fs g self")
  with jsonl_load_file_paths(1) [of loads fs g self] have "paths self' = paths self"
    by simp
  with Cons.IH [of self'] step show ?case
    by (cases r) simp_all
qed

lemma msgpack_load_files_paths:
  "paths (fst (msgpack_load_files fs files self)) = paths self"
proof (induction files arbitrary: self)
  case Nil
  show ?case by simp
next
  case (Cons g files)
  obtain self' r where step: "msgpack_load_file fs g self = (self', r)"
    by (cases "msgpack_load_file fs g self")
  with msgpack_load_file_paths(1) [of fs g self] have "paths self' = paths self"
    by simp
  with Cons.IH [of self'] step show ?case
    by (cases r) simp_all
qed

lemma jsonl_load_files_ledger_kept:
  assumes "lookup fs filename = Some f"
    and "filename_to_mtime self filename = Some (mtime f)"
  shows "filename_to_mtime (fst (jsonl_load_files loads fs files self)) filename = Some (mtime f)"
  using assms(2)
proof (induction files arbitrary: self)
  case Nil
  then show ?case by simp
next
  case (Cons g files)
  obtain self' r where step: "jsonl_load_file loads fs g self = (self', r)"
    by (cases "jsonl_load_file loads fs g self")
  have "filename_to_mtime self' filename = Some (mtime f)"
    using jsonl_load_file_ledger [of loads fs g self] step Cons.prems assms(1)
    by (auto split: option.splits)
  then have "filename_to_mtime (fst (jsonl_load_files loads fs files self')) filename = Some (mtime f)"
    by (rule Cons.IH)
  with step \<open>filename_to_mtime self' filename = Some (mtime f)\<close> show ?case
    by (cases r) simp_all
qed

lemma msgpack_load_files_ledger_kept:
  assumes "lookup fs filename = Some f"
    and "filename_to_mtime self filename = Some (mtime f)"
  shows "filename_to_mtime (fst (msgpack_load_files fs files self)) filename = Some (mtime f)"
  using assms(2)
proof (induction files arbitrary: self)
  case Nil
  then show ?case by simp
next
  case (Cons g files)
  obtain self' r where step: "msgpack_load_file fs g self = (self', r)"
    by (cases "msgpack_load_file fs g self")
  have "filename_to_mtime self' filename = Some (mtime f)"
    using msgpack_load_file_ledger [of fs g self] step Cons.prems assms(1)
    by (auto split: option.splits)
  then have "filename_to_mtime (fst (msgpack_load_files fs files self')) filename = Some (mtime f)"
    by (rule Cons.IH)
  with step \<open>filename_to_mtime self' filename = Some (mtime f)\<close> show ?case
    by (cases r) simp_all
qed

lemma jsonl_load_files_all_recorded:
  assumes "jsonl_load_files loads fs files self = (self', None)"
  shows "\<forall>filename \<in> set files. \<exists>f. lookup fs filename = Some f
            \<and> filename_to_mtime self' filename = Some (mtime f)"
  using assms
proof (induction files arbitrary: self)
  case Nil
  show ?case by simp
next
  case (Cons g files)
  obtain self1 r where step: "jsonl_load_file loads fs g self = (self1, r)"
    by (cases "jsonl_load_file loads fs g self")
  with Cons.prems have r: "r = None" and rest: "jsonl_load_files loads fs files self1 = (self', None)"
    by (cases r; simp)+
  from step r obtain f where there: "lookup fs g = Some f"
    using jsonl_load_file_error_if_missing by blast
  have "filename_to_mtime self1 g = Some (mtime f)"
    using jsonl_load_file_ledger [of loads fs g self] step there by simp
  from jsonl_load_files_ledger_kept [OF there this, of loads files] rest
  have "filename_to_mtime self' g = Some (mtime f)"
    by simp
  with there Cons.IH [OF rest] show ?case
    by simp
qed

lemma msgpack_load_files_all_recorded:
  assumes "msgpack_load_files fs files self = (self', None)"
  shows "\<forall>filename \<in> set files. \<exists>f. lookup fs filename = Some f
            \<and> filename_to_mtime self' filename = Some (mtime f)"
  using assms
proof (induction files arbitrary: self)
  case Nil
  show ?case by simp
next
  case (Cons g files)
  obtain self1 r where step: "msgpack_load_file fs g self = (self1, r)"
    by (cases "msgpack_load_file fs g self")
  with Cons.prems have r: "r = None" and rest: "msgpack_load_files fs files self1 = (self', None)"
    by (cases r; simp)+
  from step r obtain f where there: "lookup fs g = Some f"
    using msgpack_load_file_error_if_missing by blast
  have "filename_to_mtime self1 g = Some (mtime f)"
    using msgpack_load_file_ledger [of fs g self] step there by simp
  from msgpack_load_files_ledger_kept [OF there this, of files] rest
  have "filename_to_mtime self' g = Some (mtime f)"
    by simp
  with there Cons.IH [OF rest] show ?case
    by simp
qed

lemma jsonl_load_twice:
  assumes "BlueskyJSONLCatalog_load loads fs self = (self', None)"
  shows "BlueskyJSONLCatalog_load loads fs self' = (self', None)"
proof -
  let ?files = "concat (map (glob fs) (paths self))"
  from assms have first: "jsonl_load_files loads fs ?files self = (self', None)"
    by (simp add: BlueskyJSONLCatalog_load_def jsonl_load_paths_concat)
  with jsonl_load_files_paths [of loads fs ?files self] have "paths self' = paths self"
    by simp
  with jsonl_load_files_unchanged [OF jsonl_load_files_all_recorded [OF first], of loads]
  show ?thesis
    by (simp add: BlueskyJSONLCatalog_load_def jsonl_load_paths_concat)
qed

lemma msgpack_load_twice:
  assumes "BlueskyMsgpackCatalog_load fs self = (self', None)"
  shows "BlueskyMsgpackCatalog_load fs self' = (self', None)"
proof -
  let ?files = "concat (map (glob fs) (paths self))"
  from assms have first: "msgpack_load_files fs ?files self = (self', None)"
    by (simp add: BlueskyMsgpackCatalog_load_def msgpack_load_paths_concat)
  with msgpack_load_files_paths [of fs ?files self] have "paths self' = paths self"
    by simp
  with msgpack_load_files_unchanged [OF msgpack_load_files_all_recorded [OF first]]
  show ?thesis
    by (simp add: BlueskyMsgpackCatalog_load_def msgpack_load_paths_concat)
qed

lemma jsonl_load_files_not_reopened:
  assumes "lookup fs filename = Some f"
    and "filename_to_mtime self filename = Some (mtime f)"
  shows "count_list (opened (fst (jsonl_load_files loads fs files self))) filename
           = count_list (opened self) filename"
  using assms(2)
proof (induction files arbitrary: self)
  case Nil
  show ?case by simp
next
  case (Cons g files)
  obtain self' r where step: "jsonl_load_file loads fs g self = (self', r)"
    by (cases "jsonl_load_file loads fs g self")
  have kept: "filename_to_mtime self' filename = Some (mtime f)"
    using jsonl_load_files_ledger_kept [OF assms(1) Cons.prems, of loads "[g]"] step
    by (cases r) simp_all
  have same: "count_list (opened self') filename = count_list (opened self) filename"
  proof (cases "filename = g")
    case True
    with assms(1) Cons.prems step show ?thesis
      by (simp add: jsonl_load_file_unchanged)
  next
    case False
    from jsonl_load_file_opened_other [OF this, of loads fs self] step show ?thesis
      by simp
  qed
  from Cons.IH [OF kept] same step show ?case
    by (cases r) simp_all
qed

lemma msgpack_load_files_not_reopened:
  assumes "lookup fs filename = Some f"
    and "filename_to_mtime self filename = Some (mtime f)"
  shows "count_list (opened (fst (msgpack_load_files fs files self))) filename
           = count_list (opened self) filename"
  using assms(2)
proof (induction files arbitrary: self)
  case Nil
  show ?case by simp
next
  case (Cons g files)
  obtain self' r where step: "msgpack_load_file fs g self = (self', r)"
    by (cases "msgpack_load_file fs g self")
  have kept: "filename_to_mtime self' filename = Some (mtime f)"
    using msgpack_load_files_ledger_kept [OF assms(1) Cons.prems, of "[g]"] step
    by (cases r) simp_all
  have same: "count_list (opened self') filename = count_list (opened self) filename"
  proof (cases "filename = g")
    case True
    with assms(1) Cons.prems step show ?thesis
      by (simp add: msgpack_load_file_unchanged)
  next
    case False
    from msgpack_load_file_opened_other [OF this, of fs self] step show ?thesis
      by simp
  qed
  from Cons.IH [OF kept] same step show ?case
    by (cases r) simp_all
qed

lemma jsonl_load_not_reopened:
  assumes "lookup fs filename = Some f"
    and "filename_to_mtime self filename = Some (mtime f)"
  shows "count_list (opened (fst (BlueskyJSONLCatalog_load loads fs self))) filename
           = count_list (opened self) filename"
  by (simp add: BlueskyJSONLCatalog_load_def jsonl_load_paths_concat
      jsonl_load_files_not_reopened [OF assms])

lemma msgpack_load_not_reopened:
  assumes "lookup fs filename = Some f"
    and "filename_to_mtime self filename = Some (mtime f)"
  shows "count_list (opened (fst (BlueskyMsgpackCatalog_load fs self))) filename
           = count_list (opened self) filename"
  by (simp add: BlueskyMsgpackCatalog_load_def msgpack_load_paths_concat
      msgpack_load_files_not_reopened [OF assms])

lemma jsonl_cycle_records_file:
  assumes files: "concat (map (glob fs) (paths self)) = pre @ filename # post"
    and reached: "jsonl_load_files loads fs pre self = (self1, None)"
    and there: "lookup fs filename = Some f"
  shows "filename_to_mtime (fst (BlueskyJSONLCatalog_load loads fs self)) filename = Some (mtime f)"
proof -
  obtain self2 r where step: "jsonl_load_file loads fs filename self1 = (self2, r)"
    by (cases "jsonl_load_file loads fs filename self1")
  have written: "filename_to_mtime self2 filename = Some (mtime f)"
    using jsonl_load_file_ledger [of loads fs filename self1] step there by simp
  have whole: "BlueskyJSONLCatalog_load loads fs self
                 = jsonl_load_files loads fs (filename # post) self1"
    by (simp add: BlueskyJSONLCatalog_load_def jsonl_load_paths_concat files
        jsonl_load_files_append reached)
  show ?thesis
  proof (cases r)
    case None
    with whole step jsonl_load_files_ledger_kept [OF there written, of loads post]
    show ?thesis by simp
  next
    case (Some e)
    with whole step written show ?thesis by simp
  qed
qed

lemma msgpack_cycle_records_file:
  assumes files: "concat (map (glob fs) (paths self)) = pre @ filename # post"
    and reached: "msgpack_load_files fs pre self = (self1, None)"
    and there: "lookup fs filename = Some f"
  shows "filename_to_mtime (fst (BlueskyMsgpackCatalog_load fs self)) filename = Some (mtime f)"
proof -
  obtain self2 r where step: "msgpack_load_file fs filename self1 = (self2, r)"
    by (cases "msgpack_load_file fs filename self1")
  have written: "filename_to_mtime self2 filename = Some (mtime f)"
    using msgpack_load_file_ledger [of fs filename self1] step there by simp
  have whole: "BlueskyMsgpackCatalog_load fs self
                 = msgpack_load_files fs (filename # post) self1"
    by (simp add: BlueskyMsgpackCatalog_load_def msgpack_load_paths_concat files
        msgpack_load_files_append reached)
  show ?thesis
  proof (cases r)
    case None
    with whole step msgpack_load_files_ledger_kept [OF there written, of post]
    show ?thesis by simp
  next
    case (Some e)
    with whole step written show ?thesis by simp
  qed
qed

lemma jsonl_later_cycles:
  assumes files: "concat (map (glob fs) (paths self)) = pre @ filename # post"
    and reached: "jsonl_load_files loads fs pre self = (self1, None)"
    and there: "lookup fs filename = Some f"
    and after: "self' = fst (BlueskyJSONLCatalog_load loads fs self)"
  shows "filename_to_mtime self' filename = Some (mtime f)"
    and "lookup fs' filename = Some f' \<Longrightarrow> mtime f' = mtime f \<Longrightarrow>
         count_list (opened (fst (BlueskyJSONLCatalog_load loads' fs' self'))) filename
           = count_list (opened self') filename"
    and "lookup fs' filename = Some f' \<Longrightarrow> mtime f' \<noteq> mtime f \<Longrightarrow>
         opened (fst (jsonl_load_file loads' fs' filename self')) = opened self' @ [filename]"
proof -
  show recorded: "filename_to_mtime self' filename = Some (mtime f)"
    unfolding after by (rule jsonl_cycle_records_file [OF files reached there])
  show "count_list (opened (fst (BlueskyJSONLCatalog_load loads' fs' self'))) filename
           = count_list (opened self') filename"
    if "lookup fs' filename = Some f'" and "mtime f' = mtime f"
    using jsonl_load_not_reopened [OF that(1), of self' loads'] recorded that(2) by simp
  show "opened (fst (jsonl_load_file loads' fs' filename self')) = opened self' @ [filename]"
    if "lookup fs' filename = Some f'" and "mtime f' \<noteq> mtime f"
    using jsonl_load_file_changed_opened [OF that(1), of self' loads'] recorded that(2) by simp
qed

lemma msgpack_later_cycles:
  assumes files: "concat (map (glob fs) (paths self)) = pre @ filename # post"
    and reached: "msgpack_load_files fs pre self = (self1, None)"
    and there: "lookup fs filename = Some f"
    and after: "self' = fst (BlueskyMsgpackCatalog_load fs self)"
  shows "filename_to_mtime self' filename = Some (mtime f)"
    and "lookup fs' filename = Some f' \<Longrightarrow> mtime f' = mtime f \<Longrightarrow>
         count_list (opened (fst (BlueskyMsgpackCatalog_load fs' self'))) filename
           = count_list (opened self') filename"
    and "lookup fs' filename = Some f' \<Longrightarrow> mtime f' \<noteq> mtime f \<Longrightarrow>
         opened (fst (msgpack_load_file fs' filename self')) = opened self' @ [filename]"
proof -
  show recorded: "filename_to_mtime self' filename = Some (mtime f)"
    unfolding after by (rule msgpack_cycle_records_file [OF files reached there])
  show "count_list (opened (fst (BlueskyMsgpackCatalog_load fs' self'))) filename
           = count_list (opened self') filename"
    if "lookup fs' filename = Some f'" and "mtime f' = mtime f"
    using msgpack_load_not_reopened [OF that(1), of self'] recorded that(2) by simp
  show "opened (fst (msgpack_load_file fs' filename self')) = opened self' @ [filename]"
    if "lookup fs' filename = Some f'" and "mtime f' \<noteq> mtime f"
    using msgpack_load_file_changed_opened [OF that(1), of self'] recorded that(2) by simp
qed

subsection \<open>Cycles over the sample files\<close>

lemma text_runs_glob:
  "glob text_runs ''runs/*.jsonl'' = [''runs/a.jsonl'', ''runs/b.jsonl'', ''runs/c.jsonl'']"
  by (simp add: text_runs_def disk_def)

lemma text_runs_lookup:
  "lookup text_runs ''runs/a.jsonl'' = Some \<lparr>mtime = 10, content = text_complete\<rparr>"
  "lookup text_runs ''runs/b.jsonl'' = Some \<lparr>mtime = 11, content = text_malformed\<rparr>"
  "lookup text_runs ''runs/c.jsonl'' = Some \<lparr>mtime = 12, content = text_started\<rparr>"
  by (simp_all add: text_runs_def disk_def)

lemma text_runs_first_file:
  "jsonl_load_file sample_loads text_runs ''runs/a.jsonl'' jsonl_catalog
     = (upsert (mark_opened ''runs/a.jsonl'' 10 jsonl_catalog)
          sample_start (Some sample_stop) ''runs/a.jsonl'', None)"
proof -
  have stop: "jsonl_get_stop sample_loads text_runs ''runs/a.jsonl'' = Inr (Some sample_stop)"
    using jsonl_get_stop_pair [of text_runs "''runs/a.jsonl''" _ stop_line sample_loads
        "JArr [JStr ''stop'', sample_stop]" "JStr ''stop''" sample_stop]
    by (simp add: text_runs_lookup text_complete_lines sample_loads_lines lines_nonempty)
  show ?thesis
    using jsonl_load_file_upserts [of text_runs "''runs/a.jsonl''" _ jsonl_catalog sample_loads
        "JArr [JStr ''start'', sample_start]" "JStr ''start''" sample_start "Some sample_stop"]
    by (simp add: text_runs_lookup text_complete_lines sample_catalog_fields stop)
qed

lemma one_text_started_loaded:
  "filename_to_mtime self ''runs/e.jsonl'' \<noteq> Some t \<Longrightarrow>
   jsonl_load_file sample_loads (one_text_file t text_started) ''runs/e.jsonl'' self
     = (upsert (mark_opened ''runs/e.jsonl'' t self) sample_start None ''runs/e.jsonl'', None)"
proof -
  assume changed: "filename_to_mtime self ''runs/e.jsonl'' \<noteq> Some t"
  have stop: "jsonl_get_stop sample_loads (one_text_file t text_started) ''runs/e.jsonl'' = Inr None"
    using jsonl_get_stop_pair [of "one_text_file t text_started" "''runs/e.jsonl''" _ start_line
        sample_loads "JArr [JStr ''start'', sample_start]" "JStr ''start''" sample_start]
    by (simp add: one_text_file_simps text_started_lines sample_loads_lines lines_nonempty)
  show ?thesis
    using jsonl_load_file_upserts [of "one_text_file t text_started" "''runs/e.jsonl''" _ self
        sample_loads "JArr [JStr ''start'', sample_start]" "JStr ''start''" sample_start None]
      changed
    by (simp add: one_text_file_simps text_started_lines stop)
qed

lemma one_binary_complete_loaded:
  "filename_to_mtime self ''runs/e.msgpack'' \<noteq> Some t \<Longrightarrow>
   msgpack_load_file (one_binary_file t frames_complete) ''runs/e.msgpack'' self
     = (upsert (mark_opened ''runs/e.msgpack'' t self) sample_start (Some sample_stop)
          ''runs/e.msgpack'', None)"
  using msgpack_load_file_upserts [of "one_binary_file t frames_complete" "''runs/e.msgpack''" _ self
      "JArr [JStr ''start'', sample_start]" "tl frames_complete" "JStr ''start''" sample_start
      "Some sample_stop"]
  by (simp add: one_binary_file_simps msgpack_get_stop_def frames_complete_stop)
     (simp add: frames_complete_def)

subsection \<open>Unchanged files\<close>

text \<open>
  Claim C4. If every matched file exists with the modification time the ledger remembers
  for it, a refresh cycle returns the object as it was, with no exception: no file is
  opened and \<^verbatim>\<open>upsert\<close> is not called. In particular a second cycle over the same
  files, after a first one that ended without an exception, changes nothing. Both classes.
\<close>

theorem unchanged_files_are_skipped:
  fixes fs :: "string filesystem" and fsb :: "frame list filesystem"
  shows "((\<forall>filename \<in> set (concat (map (glob fs) (paths self))).
             \<exists>f. lookup fs filename = Some f \<and> filename_to_mtime self filename = Some (mtime f))
          \<longrightarrow> BlueskyJSONLCatalog_load loads fs self = (self, None))
       \<and> ((\<forall>filename \<in> set (concat (map (glob fsb) (paths self))).
             \<exists>f. lookup fsb filename = Some f \<and> filename_to_mtime self filename = Some (mtime f))
          \<longrightarrow> BlueskyMsgpackCatalog_load fsb self = (self, None))
       \<and> (BlueskyJSONLCatalog_load loads fs self = (self', None)
          \<longrightarrow> BlueskyJSONLCatalog_load loads fs self' = (self', None))
       \<and> (BlueskyMsgpackCatalog_load fsb self = (self', None)
          \<longrightarrow> BlueskyMsgpackCatalog_load fsb self' = (self', None))"
proof (intro conjI impI)
  assume "\<forall>filename \<in> set (concat (map (glob fs) (paths self))).
            \<exists>f. lookup fs filename = Some f \<and> filename_to_mtime self filename = Some (mtime f)"
  then show "BlueskyJSONLCatalog_load loads fs self = (self, None)"
    by (simp add: BlueskyJSONLCatalog_load_def jsonl_load_paths_concat jsonl_load_files_unchanged)
next
  assume "\<forall>filename \<in> set (concat (map (glob fsb) (paths self))).
            \<exists>f. lookup fsb filename = Some f \<and> filename_to_mtime self filename = Some (mtime f)"
  then show "BlueskyMsgpackCatalog_load fsb self = (self, None)"
    by (simp add: BlueskyMsgpackCatalog_load_def msgpack_load_paths_concat
        msgpack_load_files_unchanged)
next
  assume "BlueskyJSONLCatalog_load loads fs self = (self', None)"
  then show "BlueskyJSONLCatalog_load loads fs self' = (self', None)"
    by (rule jsonl_load_twice)
next
  assume "BlueskyMsgpackCatalog_load fsb self = (self', None)"
  then show "BlueskyMsgpackCatalog_load fsb self' = (self', None)"
    by (rule msgpack_load_twice)
qed

theorem unchanged_files_are_skipped_witness:
  "BlueskyJSONLCatalog_load sample_loads (one_text_file 2 text_started)
       (upsert (mark_opened ''runs/e.jsonl'' 2 jsonl_catalog) sample_start None ''runs/e.jsonl'')
     = (upsert (mark_opened ''runs/e.jsonl'' 2 jsonl_catalog) sample_start None ''runs/e.jsonl'',
        None)
   \<and> BlueskyMsgpackCatalog_load (one_binary_file 3 frames_complete)
       (upsert (mark_opened ''runs/e.msgpack'' 3 msgpack_catalog) sample_start (Some sample_stop)
          ''runs/e.msgpack'')
     = (upsert (mark_opened ''runs/e.msgpack'' 3 msgpack_catalog) sample_start (Some sample_stop)
          ''runs/e.msgpack'', None)
   \<and> BlueskyJSONLCatalog_load sample_loads (one_text_file 2 text_started) jsonl_catalog
     = (upsert (mark_opened ''runs/e.jsonl'' 2 jsonl_catalog) sample_start None ''runs/e.jsonl'',
        None)
   \<and> BlueskyMsgpackCatalog_load (one_binary_file 3 frames_complete) msgpack_catalog
     = (upsert (mark_opened ''runs/e.msgpack'' 3 msgpack_catalog) sample_start (Some sample_stop)
          ''runs/e.msgpack'', None)"
proof -
  let ?c = "upsert (mark_opened ''runs/e.jsonl'' 2 jsonl_catalog) sample_start None ''runs/e.jsonl''"
  let ?d = "upsert (mark_opened ''runs/e.msgpack'' 3 msgpack_catalog) sample_start
              (Some sample_stop) ''runs/e.msgpack''"
  have first_text: "BlueskyJSONLCatalog_load sample_loads (one_text_file 2 text_started) jsonl_catalog
                      = (?c, None)"
    by (simp add: BlueskyJSONLCatalog_load_def sample_catalog_fields one_text_file_simps
        one_text_started_loaded)
  have first_binary: "BlueskyMsgpackCatalog_load (one_binary_file 3 frames_complete) msgpack_catalog
                        = (?d, None)"
    by (simp add: BlueskyMsgpackCatalog_load_def sample_catalog_fields one_binary_file_simps
        one_binary_complete_loaded)
  have text_same:
    "\<forall>filename \<in> set (concat (map (glob (one_text_file 2 text_started)) (paths ?c))).
       \<exists>f. lookup (one_text_file 2 text_started) filename = Some f
         \<and> filename_to_mtime ?c filename = Some (mtime f)"
    by (simp add: upsert_fields mark_opened_fields sample_catalog_fields one_text_file_simps)
  have binary_same:
    "\<forall>filename \<in> set (concat (map (glob (one_binary_file 3 frames_complete)) (paths ?d))).
       \<exists>f. lookup (one_binary_file 3 frames_complete) filename = Some f
         \<and> filename_to_mtime ?d filename = Some (mtime f)"
    by (simp add: upsert_fields mark_opened_fields sample_catalog_fields one_binary_file_simps)
  from unchanged_files_are_skipped [THEN conjunct1, THEN mp, OF text_same]
    unchanged_files_are_skipped [THEN conjunct2, THEN conjunct1, THEN mp, OF binary_same]
    first_text first_binary
  show ?thesis
    by blast
qed

subsection \<open>Files that are not ready, and malformed files\<close>

text \<open>
  Claim C2, as the code has it. A changed file that is transient-not-ready (text: the first
  line does not decode and there is no second line; binary: no record) is skipped without
  an exception and without an upsert, and the cycle goes on with the files after it. The
  ledger, however, was written before the file was opened: it holds the file's current
  modification time. A later cycle that finds the same modification time does not open
  the file; the file is opened again once its modification time differs.
\<close>

theorem not_ready_file_is_skipped_and_recorded:
  fixes fs :: "string filesystem" and fsb :: "frame list filesystem"
  shows
    "(concat (map (glob fs) (paths self)) = pre @ filename # post
        \<and> jsonl_load_files loads fs pre self = (self1, None)
        \<and> lookup fs filename = Some f
        \<and> filename_to_mtime self1 filename \<noteq> Some (mtime f)
        \<and> jsonl_not_ready loads (content f)
      \<longrightarrow>
        jsonl_load_file loads fs filename self1 = (mark_opened filename (mtime f) self1, None)
        \<and> BlueskyJSONLCatalog_load loads fs self
            = jsonl_load_files loads fs post (mark_opened filename (mtime f) self1)
        \<and> filename_to_mtime (fst (BlueskyJSONLCatalog_load loads fs self)) filename
            = Some (mtime f)
        \<and> (\<forall>loads' fs' f'. lookup fs' filename = Some f' \<and> mtime f' = mtime f \<longrightarrow>
              count_list (opened (fst (BlueskyJSONLCatalog_load loads' fs'
                  (fst (BlueskyJSONLCatalog_load loads fs self))))) filename
                = count_list (opened (fst (BlueskyJSONLCatalog_load loads fs self))) filename)
        \<and> (\<forall>loads' fs' f'. lookup fs' filename = Some f' \<and> mtime f' \<noteq> mtime f \<longrightarrow>
              opened (fst (jsonl_load_file loads' fs' filename
                  (fst (BlueskyJSONLCatalog_load loads fs self))))
                = opened (fst (BlueskyJSONLCatalog_load loads fs self)) @ [filename]))
   \<and> (concat (map (glob fsb) (paths self)) = pre @ filename # post
        \<and> msgpack_load_files fsb pre self = (self1, None)
        \<and> lookup fsb filename = Some fb
        \<and> filename_to_mtime self1 filename \<noteq> Some (mtime fb)
        \<and> msgpack_not_ready (content fb)
      \<longrightarrow>
        msgpack_load_file fsb filename self1 = (mark_opened filename (mtime fb) self1, None)
        \<and> BlueskyMsgpackCatalog_load fsb self
            = msgpack_load_files fsb post (mark_opened filename (mtime fb) self1)
        \<and> filename_to_mtime (fst (BlueskyMsgpackCatalog_load fsb self)) filename
            = Some (mtime fb)
        \<and> (\<forall>fs' f'. lookup fs' filename = Some f' \<and> mtime f' = mtime fb \<longrightarrow>
              count_list (opened (fst (BlueskyMsgpackCatalog_load fs'
                  (fst (BlueskyMsgpackCatalog_load fsb self))))) filename
                = count_list (opened (fst (BlueskyMsgpackCatalog_load fsb self))) filename)
        \<and> (\<forall>fs' f'. lookup fs' filename = Some f' \<and> mtime f' \<noteq> mtime fb \<longrightarrow>
              opened (fst (msgpack_load_file fs' filename
                  (fst (BlueskyMsgpackCatalog_load fsb self))))
                = opened (fst (BlueskyMsgpackCatalog_load fsb self)) @ [filename]))"
proof (intro conjI impI; (elim conjE)?)
  assume files: "concat (map (glob fs) (paths self)) = pre @ filename # post"
    and reached: "jsonl_load_files loads fs pre self = (self1, None)"
    and there: "lookup fs filename = Some f"
    and changed: "filename_to_mtime self1 filename \<noteq> Some (mtime f)"
    and not_ready: "jsonl_not_ready loads (content f)"
  note later = jsonl_later_cycles [OF files reached there refl]
  show step: "jsonl_load_file loads fs filename self1 = (mark_opened filename (mtime f) self1, None)"
    by (rule jsonl_load_file_not_ready [OF there changed not_ready])
  show "BlueskyJSONLCatalog_load loads fs self
          = jsonl_load_files loads fs post (mark_opened filename (mtime f) self1)"
    by (simp add: jsonl_cycle_from [OF files reached] step)
  show "filename_to_mtime (fst (BlueskyJSONLCatalog_load loads fs self)) filename = Some (mtime f)"
    by (rule later(1))
  show "\<forall>loads' fs' f'. lookup fs' filename = Some f' \<and> mtime f' = mtime f \<longrightarrow>
          count_list (opened (fst (BlueskyJSONLCatalog_load loads' fs'
              (fst (BlueskyJSONLCatalog_load loads fs self))))) filename
            = count_list (opened (fst (BlueskyJSONLCatalog_load loads fs self))) filename"
    using later(2) by blast
  show "\<forall>loads' fs' f'. lookup fs' filename = Some f' \<and> mtime f' \<noteq> mtime f \<longrightarrow>
          opened (fst (jsonl_load_file loads' fs' filename
              (fst (BlueskyJSONLCatalog_load loads fs self))))
            = opened (fst (BlueskyJSONLCatalog_load loads fs self)) @ [filename]"
    using later(3) by blast
next
  assume files: "concat (map (glob fsb) (paths self)) = pre @ filename # post"
    and reached: "msgpack_load_files fsb pre self = (self1, None)"
    and there: "lookup fsb filename = Some fb"
    and changed: "filename_to_mtime self1 filename \<noteq> Some (mtime fb)"
    and not_ready: "msgpack_not_ready (content fb)"
  note later = msgpack_later_cycles [OF files reached there refl]
  show step: "msgpack_load_file fsb filename self1 = (mark_opened filename (mtime fb) self1, None)"
    by (rule msgpack_load_file_not_ready [OF there changed not_ready])
  show "BlueskyMsgpackCatalog_load fsb self
          = msgpack_load_files fsb post (mark_opened filename (mtime fb) self1)"
    by (simp add: msgpack_cycle_from [OF files reached] step)
  show "filename_to_mtime (fst (BlueskyMsgpackCatalog_load fsb self)) filename = Some (mtime fb)"
    by (rule later(1))
  show "\<forall>fs' f'. lookup fs' filename = Some f' \<and> mtime f' = mtime fb \<longrightarrow>
          count_list (opened (fst (BlueskyMsgpackCatalog_load fs'
              (fst (BlueskyMsgpackCatalog_load fsb self))))) filename
            = count_list (opened (fst (BlueskyMsgpackCatalog_load fsb self))) filename"
    using later(2) by blast
  show "\<forall>fs' f'. lookup fs' filename = Some f' \<and> mtime f' \<noteq> mtime fb \<longrightarrow>
          opened (fst (msgpack_load_file fs' filename
              (fst (BlueskyMsgpackCatalog_load fsb self))))
            = opened (fst (BlueskyMsgpackCatalog_load fsb self)) @ [filename]"
    using later(3) by blast
qed

theorem not_ready_file_is_skipped_and_recorded_witness:
  "BlueskyJSONLCatalog_load sample_loads (one_text_file 1 []) jsonl_catalog
     = (mark_opened ''runs/e.jsonl'' 1 jsonl_catalog, None)
   \<and> filename_to_mtime
        (fst (BlueskyJSONLCatalog_load sample_loads (one_text_file 1 []) jsonl_catalog))
        ''runs/e.jsonl'' = Some 1
   \<and> count_list (opened (fst (BlueskyJSONLCatalog_load sample_loads (one_text_file 1 text_started)
        (fst (BlueskyJSONLCatalog_load sample_loads (one_text_file 1 []) jsonl_catalog)))))
        ''runs/e.jsonl'' = 1
   \<and> opened (fst (jsonl_load_file sample_loads (one_text_file 2 text_started) ''runs/e.jsonl''
        (fst (BlueskyJSONLCatalog_load sample_loads (one_text_file 1 []) jsonl_catalog))))
       = [''runs/e.jsonl'', ''runs/e.jsonl'']
   \<and> BlueskyMsgpackCatalog_load (one_binary_file 1 []) msgpack_catalog
     = (mark_opened ''runs/e.msgpack'' 1 msgpack_catalog, None)
   \<and> filename_to_mtime
        (fst (BlueskyMsgpackCatalog_load (one_binary_file 1 []) msgpack_catalog))
        ''runs/e.msgpack'' = Some 1"
proof -
  have text_hyps:
    "concat (map (glob (one_text_file 1 [])) (paths jsonl_catalog)) = [] @ ''runs/e.jsonl'' # []
     \<and> jsonl_load_files sample_loads (one_text_file 1 []) [] jsonl_catalog = (jsonl_catalog, None)
     \<and> lookup (one_text_file 1 []) ''runs/e.jsonl'' = Some \<lparr>mtime = 1, content = []\<rparr>
     \<and> filename_to_mtime jsonl_catalog ''runs/e.jsonl''
         \<noteq> Some (mtime \<lparr>mtime = 1, content = ''''\<rparr>)
     \<and> jsonl_not_ready sample_loads (content \<lparr>mtime = 1, content = ''''\<rparr>)"
    by (simp add: one_text_file_simps sample_catalog_fields text_empty_not_ready)
  have binary_hyps:
    "concat (map (glob (one_binary_file 1 [])) (paths msgpack_catalog)) = [] @ ''runs/e.msgpack'' # []
     \<and> msgpack_load_files (one_binary_file 1 []) [] msgpack_catalog = (msgpack_catalog, None)
     \<and> lookup (one_binary_file 1 []) ''runs/e.msgpack'' = Some \<lparr>mtime = 1, content = []\<rparr>
     \<and> filename_to_mtime msgpack_catalog ''runs/e.msgpack''
         \<noteq> Some (mtime \<lparr>mtime = 1, content = [] :: frame list\<rparr>)
     \<and> msgpack_not_ready (content \<lparr>mtime = 1, content = [] :: frame list\<rparr>)"
    by (simp add: one_binary_file_simps sample_catalog_fields msgpack_not_ready_def)
  note tx = not_ready_file_is_skipped_and_recorded
      [THEN conjunct1, rule_format, OF text_hyps]
  note bn = not_ready_file_is_skipped_and_recorded
      [THEN conjunct2, rule_format, OF binary_hyps]
  from tx have t1: "BlueskyJSONLCatalog_load sample_loads (one_text_file 1 []) jsonl_catalog
     = (mark_opened ''runs/e.jsonl'' 1 jsonl_catalog, None)"
    by simp
  from tx have t2: "filename_to_mtime
        (fst (BlueskyJSONLCatalog_load sample_loads (one_text_file 1 []) jsonl_catalog))
        ''runs/e.jsonl'' = Some 1"
    by (simp add: mark_opened_fields)
  from tx have "count_list (opened (fst (BlueskyJSONLCatalog_load sample_loads (one_text_file 1 text_started)
        (fst (BlueskyJSONLCatalog_load sample_loads (one_text_file 1 []) jsonl_catalog)))))
        ''runs/e.jsonl''
      = count_list (opened (fst (BlueskyJSONLCatalog_load sample_loads (one_text_file 1 []) jsonl_catalog)))
        ''runs/e.jsonl''"
    using one_text_file_simps(2) [of 1 text_started] by force
  then have t3: "count_list (opened (fst (BlueskyJSONLCatalog_load sample_loads (one_text_file 1 text_started)
        (fst (BlueskyJSONLCatalog_load sample_loads (one_text_file 1 []) jsonl_catalog)))))
        ''runs/e.jsonl'' = 1"
    by (simp add: t1 mark_opened_fields sample_catalog_fields)
  from tx have "opened (fst (jsonl_load_file sample_loads (one_text_file 2 text_started) ''runs/e.jsonl''
        (fst (BlueskyJSONLCatalog_load sample_loads (one_text_file 1 []) jsonl_catalog))))
       = opened (fst (BlueskyJSONLCatalog_load sample_loads (one_text_file 1 []) jsonl_catalog))
          @ [''runs/e.jsonl'']"
    using one_text_file_simps(2) [of 2 text_started] by force
  then have t4: "opened (fst (jsonl_load_file sample_loads (one_text_file 2 text_started) ''runs/e.jsonl''
        (fst (BlueskyJSONLCatalog_load sample_loads (one_text_file 1 []) jsonl_catalog))))
       = [''runs/e.jsonl'', ''runs/e.jsonl'']"
    by (simp add: t1 mark_opened_fields sample_catalog_fields)
  from bn have b1: "BlueskyMsgpackCatalog_load (one_binary_file 1 []) msgpack_catalog
     = (mark_opened ''runs/e.msgpack'' 1 msgpack_catalog, None)"
    by simp
  from bn have b2: "filename_to_mtime
        (fst (BlueskyMsgpackCatalog_load (one_binary_file 1 []) msgpack_catalog))
        ''runs/e.msgpack'' = Some 1"
    by (simp add: mark_opened_fields)
  from t1 t2 t3 t4 b1 b2 show ?thesis
    by blast
qed

text \<open>
  An empty text file and a catalog that has not seen it: the cycle raises nothing and
  leaves the file's modification time in the ledger, where there was none. The next
  cycle finds a start record in the file under the same modification time, and does
  nothing: the file is not examined again.
\<close>

theorem not_ready_file_ledger_counterexample:
  "filename_to_mtime jsonl_catalog ''runs/e.jsonl'' = None
   \<and> BlueskyJSONLCatalog_load sample_loads (one_text_file 1 []) jsonl_catalog
       = (mark_opened ''runs/e.jsonl'' 1 jsonl_catalog, None)
   \<and> filename_to_mtime (mark_opened ''runs/e.jsonl'' 1 jsonl_catalog) ''runs/e.jsonl'' = Some 1
   \<and> BlueskyJSONLCatalog_load sample_loads (one_text_file 1 text_started)
         (mark_opened ''runs/e.jsonl'' 1 jsonl_catalog)
       = (mark_opened ''runs/e.jsonl'' 1 jsonl_catalog, None)"
proof -
  have first: "jsonl_load_file sample_loads (one_text_file 1 []) ''runs/e.jsonl'' jsonl_catalog
                 = (mark_opened ''runs/e.jsonl'' 1 jsonl_catalog, None)"
    using jsonl_load_file_not_ready [of "one_text_file 1 []" "''runs/e.jsonl''"
        "\<lparr>mtime = 1, content = []\<rparr>" jsonl_catalog sample_loads]
    by (simp add: one_text_file_simps sample_catalog_fields text_empty_not_ready)
  have second: "jsonl_load_file sample_loads (one_text_file 1 text_started) ''runs/e.jsonl''
                    (mark_opened ''runs/e.jsonl'' 1 jsonl_catalog)
                 = (mark_opened ''runs/e.jsonl'' 1 jsonl_catalog, None)"
    using jsonl_load_file_unchanged [of "one_text_file 1 text_started" "''runs/e.jsonl''"
        "\<lparr>mtime = 1, content = text_started\<rparr>" "mark_opened ''runs/e.jsonl'' 1 jsonl_catalog"
        sample_loads]
    by (simp add: one_text_file_simps mark_opened_fields)
  show ?thesis
    by (simp add: BlueskyJSONLCatalog_load_def sample_catalog_fields one_text_file_simps
        mark_opened_fields first second)
qed

text \<open>
  Claim C5. When a refresh cycle reaches a text file whose modification time differs from
  the ledger's, whose first line does not decode and which has a second line, the cycle
  ends there with \<^verbatim>\<open>JSONDecodeError\<close>: the upserts are those of the files before it,
  so there is none for this file or for any file after it, and no later file is opened.
\<close>

theorem malformed_start_aborts_cycle:
  assumes files: "concat (map (glob fs) (paths self)) = pre @ filename # post"
    and reached: "jsonl_load_files loads fs pre self = (self1, None)"
    and there: "lookup fs filename = Some f"
    and changed: "filename_to_mtime self1 filename \<noteq> Some (mtime f)"
    and malformed: "jsonl_malformed_start loads (content f)"
  shows "BlueskyJSONLCatalog_load loads fs self
           = (mark_opened filename (mtime f) self1, Some JSONDecodeError)
         \<and> upserts (fst (BlueskyJSONLCatalog_load loads fs self)) = upserts self1
         \<and> opened (fst (BlueskyJSONLCatalog_load loads fs self)) = opened self1 @ [filename]"
proof -
  have "BlueskyJSONLCatalog_load loads fs self
          = jsonl_load_files loads fs (filename # post) self1"
    by (simp add: BlueskyJSONLCatalog_load_def jsonl_load_paths_concat files
        jsonl_load_files_append reached)
  also have "\<dots> = (mark_opened filename (mtime f) self1, Some JSONDecodeError)"
    by (simp add: jsonl_load_file_malformed_start [OF there changed malformed])
  finally show ?thesis
    by (simp add: mark_opened_fields)
qed

theorem malformed_start_aborts_cycle_witness:
  "BlueskyJSONLCatalog_load sample_loads text_runs
       jsonl_catalog
     = (mark_opened ''runs/b.jsonl'' 11
          (upsert (mark_opened ''runs/a.jsonl'' 10
                     jsonl_catalog)
             sample_start (Some sample_stop) ''runs/a.jsonl''),
        Some JSONDecodeError)
   \<and> map gen_filename (upserts (fst (BlueskyJSONLCatalog_load sample_loads text_runs
       jsonl_catalog))) = [''runs/a.jsonl'']
   \<and> opened (fst (BlueskyJSONLCatalog_load sample_loads text_runs
       jsonl_catalog))
      = [''runs/a.jsonl'', ''runs/b.jsonl'']"
proof -
  let ?c = jsonl_catalog
  let ?c1 = "upsert (mark_opened ''runs/a.jsonl'' 10 ?c) sample_start (Some sample_stop) ''runs/a.jsonl''"
  let ?f = "\<lparr>mtime = 11, content = text_malformed\<rparr>"
  have files: "concat (map (glob text_runs) (paths ?c)) = [''runs/a.jsonl''] @ ''runs/b.jsonl'' # [''runs/c.jsonl'']"
    by (simp add: sample_catalog_fields text_runs_glob)
  have reached: "jsonl_load_files sample_loads text_runs [''runs/a.jsonl''] ?c = (?c1, None)"
    by (simp add: text_runs_first_file)
  have there: "lookup text_runs ''runs/b.jsonl'' = Some ?f"
    by (simp add: text_runs_lookup)
  have changed: "filename_to_mtime ?c1 ''runs/b.jsonl'' \<noteq> Some (mtime ?f)"
    by (simp add: upsert_fields mark_opened_fields sample_catalog_fields)
  have malformed: "jsonl_malformed_start sample_loads (content ?f)"
    by (simp add: text_malformed_lines)
  from malformed_start_aborts_cycle [OF files reached there changed malformed]
  show ?thesis
    by (simp add: upsert_def mark_opened_def sample_catalog_fields)
qed

text \<open>
  Claim C6. For a matched file that the cycle reaches and whose modification time differs
  from the ledger's, the ledger holds the new modification time when the cycle ends,
  whatever the parse did; a malformed start (text: \<^verbatim>\<open>JSONDecodeError\<close> with a
  second line present; binary: a frame that does not decode or does not unpack) makes the
  cycle raise, and the ledger still holds the new time. A later cycle that finds the same
  modification time does not open the file again; one that finds another time does.
\<close>

theorem ledger_written_before_parse:
  fixes fs :: "string filesystem" and fsb :: "frame list filesystem"
  shows
    "(concat (map (glob fs) (paths self)) = pre @ filename # post
        \<and> jsonl_load_files loads fs pre self = (self1, None)
        \<and> lookup fs filename = Some f
        \<and> filename_to_mtime self1 filename \<noteq> Some (mtime f)
      \<longrightarrow>
        filename_to_mtime (fst (BlueskyJSONLCatalog_load loads fs self)) filename
            = Some (mtime f)
        \<and> (jsonl_malformed_start loads (content f) \<longrightarrow>
              snd (BlueskyJSONLCatalog_load loads fs self) = Some JSONDecodeError)
        \<and> (\<forall>loads' fs' f'. lookup fs' filename = Some f' \<and> mtime f' = mtime f \<longrightarrow>
              count_list (opened (fst (BlueskyJSONLCatalog_load loads' fs'
                  (fst (BlueskyJSONLCatalog_load loads fs self))))) filename
                = count_list (opened (fst (BlueskyJSONLCatalog_load loads fs self))) filename)
        \<and> (\<forall>loads' fs' f'. lookup fs' filename = Some f' \<and> mtime f' \<noteq> mtime f \<longrightarrow>
              opened (fst (jsonl_load_file loads' fs' filename
                  (fst (BlueskyJSONLCatalog_load loads fs self))))
                = opened (fst (BlueskyJSONLCatalog_load loads fs self)) @ [filename]))
   \<and> (concat (map (glob fsb) (paths self)) = pre @ filename # post
        \<and> msgpack_load_files fsb pre self = (self1, None)
        \<and> lookup fsb filename = Some fb
        \<and> filename_to_mtime self1 filename \<noteq> Some (mtime fb)
      \<longrightarrow>
        filename_to_mtime (fst (BlueskyMsgpackCatalog_load fsb self)) filename
            = Some (mtime fb)
        \<and> (\<forall>rest. content fb = Corrupt # rest \<longrightarrow>
              snd (BlueskyMsgpackCatalog_load fsb self) = Some UnpackException)
        \<and> (\<forall>v rest e. content fb = Frame v # rest \<and> unpack_pair v = Inl e \<longrightarrow>
              snd (BlueskyMsgpackCatalog_load fsb self) = Some e)
        \<and> (\<forall>fs' f'. lookup fs' filename = Some f' \<and> mtime f' = mtime fb \<longrightarrow>
              count_list (opened (fst (BlueskyMsgpackCatalog_load fs'
                  (fst (BlueskyMsgpackCatalog_load fsb self))))) filename
                = count_list (opened (fst (BlueskyMsgpackCatalog_load fsb self))) filename)
        \<and> (\<forall>fs' f'. lookup fs' filename = Some f' \<and> mtime f' \<noteq> mtime fb \<longrightarrow>
              opened (fst (msgpack_load_file fs' filename
                  (fst (BlueskyMsgpackCatalog_load fsb self))))
                = opened (fst (BlueskyMsgpackCatalog_load fsb self)) @ [filename]))"
proof (intro conjI impI; (elim conjE)?)
  assume files: "concat (map (glob fs) (paths self)) = pre @ filename # post"
    and reached: "jsonl_load_files loads fs pre self = (self1, None)"
    and there: "lookup fs filename = Some f"
    and changed: "filename_to_mtime self1 filename \<noteq> Some (mtime f)"
  note later = jsonl_later_cycles [OF files reached there refl]
  show "filename_to_mtime (fst (BlueskyJSONLCatalog_load loads fs self)) filename = Some (mtime f)"
    by (rule later(1))
  show "snd (BlueskyJSONLCatalog_load loads fs self) = Some JSONDecodeError"
    if "jsonl_malformed_start loads (content f)"
    by (simp add: jsonl_cycle_from [OF files reached]
        jsonl_load_file_malformed_start [OF there changed that])
  show "\<forall>loads' fs' f'. lookup fs' filename = Some f' \<and> mtime f' = mtime f \<longrightarrow>
          count_list (opened (fst (BlueskyJSONLCatalog_load loads' fs'
              (fst (BlueskyJSONLCatalog_load loads fs self))))) filename
            = count_list (opened (fst (BlueskyJSONLCatalog_load loads fs self))) filename"
    using later(2) by blast
  show "\<forall>loads' fs' f'. lookup fs' filename = Some f' \<and> mtime f' \<noteq> mtime f \<longrightarrow>
          opened (fst (jsonl_load_file loads' fs' filename
              (fst (BlueskyJSONLCatalog_load loads fs self))))
            = opened (fst (BlueskyJSONLCatalog_load loads fs self)) @ [filename]"
    using later(3) by blast
next
  assume files: "concat (map (glob fsb) (paths self)) = pre @ filename # post"
    and reached: "msgpack_load_files fsb pre self = (self1, None)"
    and there: "lookup fsb filename = Some fb"
    and changed: "filename_to_mtime self1 filename \<noteq> Some (mtime fb)"
  note later = msgpack_later_cycles [OF files reached there refl]
  note whole = msgpack_cycle_from [OF files reached]
  show "filename_to_mtime (fst (BlueskyMsgpackCatalog_load fsb self)) filename = Some (mtime fb)"
    by (rule later(1))
  show "\<forall>rest. content fb = Corrupt # rest \<longrightarrow>
          snd (BlueskyMsgpackCatalog_load fsb self) = Some UnpackException"
    by (simp add: whole msgpack_load_file_malformed_start(1) [OF there changed])
  show "\<forall>v rest e. content fb = Frame v # rest \<and> unpack_pair v = Inl e \<longrightarrow>
          snd (BlueskyMsgpackCatalog_load fsb self) = Some e"
    by (simp add: whole msgpack_load_file_malformed_start(2) [OF there changed])
  show "\<forall>fs' f'. lookup fs' filename = Some f' \<and> mtime f' = mtime fb \<longrightarrow>
          count_list (opened (fst (BlueskyMsgpackCatalog_load fs'
              (fst (BlueskyMsgpackCatalog_load fsb self))))) filename
            = count_list (opened (fst (BlueskyMsgpackCatalog_load fsb self))) filename"
    using later(2) by blast
  show "\<forall>fs' f'. lookup fs' filename = Some f' \<and> mtime f' \<noteq> mtime fb \<longrightarrow>
          opened (fst (msgpack_load_file fs' filename
              (fst (BlueskyMsgpackCatalog_load fsb self))))
            = opened (fst (BlueskyMsgpackCatalog_load fsb self)) @ [filename]"
    using later(3) by blast
qed

theorem ledger_written_before_parse_witness:
  "filename_to_mtime (fst (BlueskyJSONLCatalog_load sample_loads text_runs jsonl_catalog))
      ''runs/b.jsonl'' = Some 11
   \<and> snd (BlueskyJSONLCatalog_load sample_loads text_runs jsonl_catalog) = Some JSONDecodeError
   \<and> count_list (opened (fst (BlueskyJSONLCatalog_load sample_loads text_runs
        (fst (BlueskyJSONLCatalog_load sample_loads text_runs jsonl_catalog))))) ''runs/b.jsonl''
      = count_list (opened (fst (BlueskyJSONLCatalog_load sample_loads text_runs jsonl_catalog)))
          ''runs/b.jsonl''
   \<and> filename_to_mtime (fst (BlueskyMsgpackCatalog_load binary_corrupt msgpack_catalog))
      ''runs/e.msgpack'' = Some 5
   \<and> snd (BlueskyMsgpackCatalog_load binary_corrupt msgpack_catalog) = Some UnpackException"
proof -
  let ?c1 = "upsert (mark_opened ''runs/a.jsonl'' 10 jsonl_catalog)
               sample_start (Some sample_stop) ''runs/a.jsonl''"
  have text_hyps:
    "concat (map (glob text_runs) (paths jsonl_catalog))
       = [''runs/a.jsonl''] @ ''runs/b.jsonl'' # [''runs/c.jsonl'']
     \<and> jsonl_load_files sample_loads text_runs [''runs/a.jsonl''] jsonl_catalog = (?c1, None)
     \<and> lookup text_runs ''runs/b.jsonl'' = Some \<lparr>mtime = 11, content = text_malformed\<rparr>
     \<and> filename_to_mtime ?c1 ''runs/b.jsonl''
         \<noteq> Some (mtime \<lparr>mtime = 11, content = text_malformed\<rparr>)"
    by (simp add: sample_catalog_fields text_runs_glob text_runs_lookup text_runs_first_file
        upsert_fields mark_opened_fields)
  have binary_hyps:
    "concat (map (glob binary_corrupt) (paths msgpack_catalog)) = [] @ ''runs/e.msgpack'' # []
     \<and> msgpack_load_files binary_corrupt [] msgpack_catalog = (msgpack_catalog, None)
     \<and> lookup binary_corrupt ''runs/e.msgpack''
         = Some \<lparr>mtime = 5, content = [Corrupt, Frame (JArr [JStr ''stop'', sample_stop])]\<rparr>
     \<and> filename_to_mtime msgpack_catalog ''runs/e.msgpack''
         \<noteq> Some (mtime \<lparr>mtime = 5,
               content = [Corrupt, Frame (JArr [JStr ''stop'', sample_stop])]\<rparr>)"
    by (simp add: binary_corrupt_def one_binary_file_simps sample_catalog_fields)
  note tx = ledger_written_before_parse [THEN conjunct1, rule_format, OF text_hyps]
  note bn = ledger_written_before_parse [THEN conjunct2, rule_format, OF binary_hyps]
  from tx have t1: "filename_to_mtime
        (fst (BlueskyJSONLCatalog_load sample_loads text_runs jsonl_catalog))
        ''runs/b.jsonl'' = Some 11"
    by simp
  from tx text_malformed_lines
  have t2: "snd (BlueskyJSONLCatalog_load sample_loads text_runs jsonl_catalog)
              = Some JSONDecodeError"
    by simp
  from tx have t3: "count_list (opened (fst (BlueskyJSONLCatalog_load sample_loads text_runs
        (fst (BlueskyJSONLCatalog_load sample_loads text_runs jsonl_catalog))))) ''runs/b.jsonl''
      = count_list (opened (fst (BlueskyJSONLCatalog_load sample_loads text_runs jsonl_catalog)))
          ''runs/b.jsonl''"
    using text_runs_lookup(2) by force
  from bn have b1: "filename_to_mtime (fst (BlueskyMsgpackCatalog_load binary_corrupt msgpack_catalog))
      ''runs/e.msgpack'' = Some 5"
    by simp
  from bn have b2: "snd (BlueskyMsgpackCatalog_load binary_corrupt msgpack_catalog)
      = Some UnpackException"
    by simp
  from t1 t2 t3 b1 b2 show ?thesis
    by blast
qed

end
